theory Spec2Isabelle
  imports Complex_Main "HOL-Library.Sublist"
begin


section \<open>Time\<close>

text \<open>
  A JavaScript \<open>Date\<close> is its time value: the milliseconds since the epoch, an integer.
  Comparing two dates with \<open><\<close> (also inside a MongoDB filter) compares the time values.
  The calendar setters work in the local zone of the process, which is taken to be UTC (the
  zone the scheduler is configured for), so that a calendar day is \<open>86400000\<close> ms:
  \<^item> \<open>d.setDate(d.getDate() - n)\<close> moves \<open>d\<close> back by \<open>n\<close> days;
  \<^item> \<open>d.setHours(0, 0, 0, 0)\<close> truncates \<open>d\<close> to the midnight that starts its day;
  \<^item> \<open>d.setHours(23, 59, 59, 999)\<close> moves \<open>d\<close> to the last millisecond of its day.
\<close>

type_synonym time = int

definition DAY_MS :: int where
  "DAY_MS = 24 * 60 * 60 * 1000"

definition setDate_back :: "time \<Rightarrow> int \<Rightarrow> time" where
  "setDate_back d n = d - n * DAY_MS"

definition setHours_0_0_0_0 :: "time \<Rightarrow> time" where
  "setHours_0_0_0_0 d = d - d mod DAY_MS"

definition setHours_23_59_59_999 :: "time \<Rightarrow> time" where
  "setHours_23_59_59_999 d = d - d mod DAY_MS + (DAY_MS - 1)"

section \<open>The Job model\<close>

text \<open>
  The \<open>Job\<close> schema. \<open>_id\<close> is the document's ObjectId (here \<open>oid\<close>), the schema's own
  \<open>jobId\<close> string is \<open>jobUuid\<close>, its keyword list is \<open>jobKeywords\<close>, and
  \<open>skills.others\<close> is \<open>otherSkills\<close>. Numbers that
  only count events are natural numbers (a JavaScript number is exact on integers below
  \<open>2^53\<close>). The Mongoose bookkeeping fields \<open>createdAt\<close>/\<open>updatedAt\<close> are left out.
\<close>

type_synonym objectId = nat

datatype job_status = Active | Dump | Inactive

record skills =
  languages :: "string list"
  technologies :: "string list"
  frameworks :: "string list"
  databases :: "string list"
  tools :: "string list"
  otherSkills :: "string list"

record job_analytics =
  views :: nat
  clicks :: nat
  lastViewedAt :: "time option"
  lastClickedAt :: "time option"

record job =
  oid :: objectId
  jobUuid :: string
  companyName :: string
  companyLogo :: string
  role :: string
  location :: string
  experience :: string
  description :: string
  requiredDegree :: string
  employmentType :: string
  hiringLink :: string
  estPackage :: string
  skills :: skills
  jobKeywords :: "string list"
  datePosted :: time
  status :: job_status
  movedToDumpAt :: "time option"
  lastStatusChange :: time
  isActive :: bool
  createdBy :: objectId
  analytics :: job_analytics

text \<open>
  A document built by \<open>new Job(data)\<close> at time \<open>now\<close> from the required fields only: every
  lifecycle field takes its schema default (\<open>status = 'active'\<close>, \<open>datePosted = Date.now\<close>,
  \<open>movedToDumpAt = null\<close>, \<open>lastStatusChange = Date.now\<close>, \<open>isActive = true\<close>, counters 0).
\<close>

definition newJob :: "objectId \<Rightarrow> string \<Rightarrow> string \<Rightarrow> objectId \<Rightarrow> time \<Rightarrow> job" where
  "newJob i company link admin now =
     \<lparr> oid = i, jobUuid = [], companyName = company, companyLogo = [], role = [],
       location = [], experience = [], description = [], requiredDegree = [],
       employmentType = ''Full-Time'', hiringLink = link, estPackage = [],
       skills = \<lparr> languages = [], technologies = [], frameworks = [], databases = [],
                  tools = [], otherSkills = [] \<rparr>,
       jobKeywords = [], datePosted = now, status = Active, movedToDumpAt = None,
       lastStatusChange = now, isActive = True, createdBy = admin,
       analytics = \<lparr> views = 0, clicks = 0, lastViewedAt = None, lastClickedAt = None \<rparr> \<rparr>"

subsection \<open>Instance methods\<close>

text \<open>
  Each method mutates \<open>this\<close> and saves it; the model returns the mutated document, and
  \<open>save\<close> below writes it back. Every \<open>new Date()\<close> of one call reads the clock value
  \<open>now\<close> of that call.
\<close>

definition incrementViews :: "time \<Rightarrow> job \<Rightarrow> job" where
  "incrementViews now j =
     j\<lparr>analytics := (analytics j)\<lparr>views := views (analytics j) + 1, lastViewedAt := Some now\<rparr>\<rparr>"

definition incrementClicks :: "time \<Rightarrow> job \<Rightarrow> job" where
  "incrementClicks now j =
     j\<lparr>analytics := (analytics j)\<lparr>clicks := clicks (analytics j) + 1, lastClickedAt := Some now\<rparr>\<rparr>"

definition moveToDump :: "time \<Rightarrow> job \<Rightarrow> job" where
  "moveToDump now j = j\<lparr>status := Dump, movedToDumpAt := Some now, lastStatusChange := now\<rparr>"

definition moveToInactive :: "time \<Rightarrow> job \<Rightarrow> job" where
  "moveToInactive now j = j\<lparr>status := Inactive, isActive := False, lastStatusChange := now\<rparr>"

definition reactivate :: "time \<Rightarrow> job \<Rightarrow> job" where
  "reactivate now j =
     j\<lparr>status := Active, isActive := True, movedToDumpAt := None,
       lastStatusChange := now, datePosted := now\<rparr>"

subsection \<open>The collection\<close>

text \<open>
  The collection is the list of its documents. \<open>findById\<close> returns the document with the
  given \<open>_id\<close>, \<open>save\<close> overwrites the stored document that has the saved document's
  \<open>_id\<close>. \<open>updateMany filter update\<close> applies the update to every document that matches
  the filter and reports \<open>modifiedCount\<close>, the number of documents it actually changed.
\<close>

definition findById :: "job list \<Rightarrow> objectId \<Rightarrow> job option" where
  "findById js i = find (\<lambda>d. oid d = i) js"

definition save :: "job \<Rightarrow> job list \<Rightarrow> job list" where
  "save j js = map (\<lambda>d. if oid d = oid j then j else d) js"

definition updateMany :: "(job \<Rightarrow> bool) \<Rightarrow> (job \<Rightarrow> job) \<Rightarrow> job list \<Rightarrow> job list \<times> nat" where
  "updateMany flt upd js =
     (map (\<lambda>d. if flt d then upd d else d) js,
      length (filter (\<lambda>d. flt d \<and> upd d \<noteq> d) js))"

text \<open>
  The filter \<open>{ field: { $lt: d } }\<close> on a date field: a stored date matches when it is
  before \<open>d\<close>; a field that is \<open>null\<close> matches no date comparison.
\<close>

definition lt_date :: "time option \<Rightarrow> time \<Rightarrow> bool" where
  "lt_date v d = (case v of None \<Rightarrow> False | Some t \<Rightarrow> t < d)"

subsection \<open>The automatic pass\<close>

text \<open>
  \<open>processStatusChanges\<close> reads the clock five times, in this order: for \<open>sevenDaysAgo\<close>,
  for \<open>thirtyDaysAgo\<close>, then (when the first update is built) for \<open>movedToDumpAt\<close> and
  \<open>lastStatusChange\<close>, and (when the second update is built) for \<open>lastStatusChange\<close>.
  The readings are a parameter; \<open>ProcessTransitions now\<close> is the pass under a clock that
  reads \<open>now\<close> throughout, which is how the specification names it. A rejected
  \<open>updateMany\<close> is logged and rethrown by the source; the model is the pass over a store
  that answers.
\<close>

record readings =
  at_sevenDaysAgo :: time
  at_thirtyDaysAgo :: time
  at_movedToDumpAt :: time
  at_dumpStatusChange :: time
  at_inactiveStatusChange :: time

record status_changes =
  movedToDump :: nat
  movedToInactive :: nat

definition processStatusChanges :: "readings \<Rightarrow> job list \<Rightarrow> job list \<times> status_changes" where
  "processStatusChanges c js =
     (let sevenDaysAgo = setDate_back (at_sevenDaysAgo c) 7;
          thirtyDaysAgo = setDate_back (at_thirtyDaysAgo c) 30;
          jobsToMoveToDump =
            updateMany (\<lambda>d. status d = Active \<and> datePosted d < sevenDaysAgo)
              (\<lambda>d. d\<lparr>status := Dump, movedToDumpAt := Some (at_movedToDumpAt c),
                      lastStatusChange := at_dumpStatusChange c\<rparr>) js;
          jobsToMoveToInactive =
            updateMany (\<lambda>d. status d = Dump \<and> lt_date (movedToDumpAt d) thirtyDaysAgo)
              (\<lambda>d. d\<lparr>status := Inactive, isActive := False,
                      lastStatusChange := at_inactiveStatusChange c\<rparr>) (fst jobsToMoveToDump)
      in (fst jobsToMoveToInactive,
          \<lparr> movedToDump = snd jobsToMoveToDump,
            movedToInactive = snd jobsToMoveToInactive \<rparr>))"

definition frozen :: "time \<Rightarrow> readings" where
  "frozen now =
     \<lparr> at_sevenDaysAgo = now, at_thirtyDaysAgo = now, at_movedToDumpAt = now,
       at_dumpStatusChange = now, at_inactiveStatusChange = now \<rparr>"

definition ProcessTransitions :: "time \<Rightarrow> job list \<Rightarrow> job list \<times> status_changes" where
  "ProcessTransitions now js = processStatusChanges (frozen now) js"

subsection \<open>The two bulk updates, per document\<close>

text \<open>
  What the first and the second \<open>updateMany\<close> of the pass do to one document. They are
  used to reason about the pass; \<open>pass_is_two_steps\<close> below shows that the pass is these
  two steps applied to every document in turn.
\<close>

definition dump_step :: "readings \<Rightarrow> job \<Rightarrow> job" where
  "dump_step c d =
     (if status d = Active \<and> datePosted d < setDate_back (at_sevenDaysAgo c) 7
      then d\<lparr>status := Dump, movedToDumpAt := Some (at_movedToDumpAt c),
             lastStatusChange := at_dumpStatusChange c\<rparr>
      else d)"

definition inactive_step :: "readings \<Rightarrow> job \<Rightarrow> job" where
  "inactive_step c d =
     (if status d = Dump \<and> lt_date (movedToDumpAt d) (setDate_back (at_thirtyDaysAgo c) 30)
      then d\<lparr>status := Inactive, isActive := False,
             lastStatusChange := at_inactiveStatusChange c\<rparr>
      else d)"

section \<open>Manual transitions and increments\<close>

text \<open>
  The handler of \<open>PUT /api/jobs/:id/status\<close>, after authentication. It answers with a
  status code and a JSON body and leaves the collection as the called method saved it.
  A body is either a bare message, or a message with the job, or the job alone, or the
  click acknowledgement with the hiring link.
\<close>

datatype body =
    Message string
  | MessageJob string job
  | JobDoc job
  | ClickRecorded string string

type_synonym response = "nat \<times> body"

definition put_status :: "time \<Rightarrow> objectId \<Rightarrow> string \<Rightarrow> job list \<Rightarrow> response \<times> job list" where
  "put_status now i st js =
     (if st \<notin> set [''active'', ''dump'', ''inactive'']
      then ((400, Message ''Invalid status. Must be active, dump, or inactive''), js)
      else case findById js i of
        None \<Rightarrow> ((404, Message ''Job not found''), js)
      | Some j \<Rightarrow>
          (let j' = (if st = ''active'' then reactivate now j
                     else if st = ''dump'' then moveToDump now j
                     else if st = ''inactive'' then moveToInactive now j
                     else j)
           in ((200, MessageJob (''Job status updated to '' @ st) j'), save j' js)))"

text \<open>The operations as the specification names them.\<close>

definition ReactivateJob :: "time \<Rightarrow> objectId \<Rightarrow> job list \<Rightarrow> response \<times> job list" where
  "ReactivateJob now i js = put_status now i ''active'' js"

definition MoveToDump :: "time \<Rightarrow> objectId \<Rightarrow> job list \<Rightarrow> response \<times> job list" where
  "MoveToDump now i js = put_status now i ''dump'' js"

definition MoveToInactive :: "time \<Rightarrow> objectId \<Rightarrow> job list \<Rightarrow> response \<times> job list" where
  "MoveToInactive now i js = put_status now i ''inactive'' js"

text \<open>
  The increments on a looked-up job, as the public handlers perform them: nothing changes
  when no job has the id.
\<close>

definition IncrementView :: "time \<Rightarrow> objectId \<Rightarrow> job list \<Rightarrow> job list" where
  "IncrementView now i js =
     (case findById js i of None \<Rightarrow> js | Some j \<Rightarrow> save (incrementViews now j) js)"

definition IncrementClick :: "time \<Rightarrow> objectId \<Rightarrow> job list \<Rightarrow> job list" where
  "IncrementClick now i js =
     (case findById js i of None \<Rightarrow> js | Some j \<Rightarrow> save (incrementClicks now j) js)"

subsection \<open>Sequences of operations\<close>

datatype lifecycle_op =
    AutomaticPass time
  | ManualDump time objectId
  | ManualInactive time objectId
  | Reactivate time objectId
  | ViewOf time objectId
  | ClickOf time objectId

fun apply_op :: "lifecycle_op \<Rightarrow> job list \<Rightarrow> job list" where
  "apply_op (AutomaticPass now) js = fst (ProcessTransitions now js)"
| "apply_op (ManualDump now i) js = snd (MoveToDump now i js)"
| "apply_op (ManualInactive now i) js = snd (MoveToInactive now i js)"
| "apply_op (Reactivate now i) js = snd (ReactivateJob now i js)"
| "apply_op (ViewOf now i) js = IncrementView now i js"
| "apply_op (ClickOf now i) js = IncrementClick now i js"

fun run_ops :: "lifecycle_op list \<Rightarrow> job list \<Rightarrow> job list" where
  "run_ops [] js = js"
| "run_ops (x # xs) js = run_ops xs (apply_op x js)"

text \<open>The two invariants the specification states for a job.\<close>

definition job_inv :: "job \<Rightarrow> bool" where
  "job_inv j =
     ((movedToDumpAt j \<noteq> None) = (status j = Dump \<or> status j = Inactive)
      \<and> (\<not> isActive j) = (status j = Inactive))"

section \<open>The Analytics model\<close>

text \<open>
  One \<open>Analytics\<close> document per day. The per-job entries carry a reference to a job: the
  stored document holds the job's ObjectId, a populated query result holds what \<open>populate\<close>
  put in its place, so the documents are polymorphic in the reference. The arrays
  \<open>topSearchKeywords\<close> and \<open>topCompanies\<close>, which no operation writes, are left out.
\<close>

record visitor =
  ip :: "string option"
  userAgent :: string
  timestamp :: time

record 'r job_count =
  jobId :: 'r
  count :: nat

record device_info =
  desktop :: nat
  mobile :: nat
  tablet :: nat

record browser_info =
  chrome :: nat
  firefox :: nat
  safari :: nat
  edge :: nat
  others :: nat

record 'r bucket =
  date :: time
  websiteVisits :: nat
  uniqueVisitors :: "visitor list"
  jobViews :: "'r job_count list"
  jobClicks :: "'r job_count list"
  deviceInfo :: device_info
  browserInfo :: browser_info

text \<open>\<open>new this({ date: today })\<close>: every other field takes its schema default.\<close>

definition newAnalytics :: "time \<Rightarrow> 'r bucket" where
  "newAnalytics today =
     \<lparr> date = today, websiteVisits = 0, uniqueVisitors = [], jobViews = [], jobClicks = [],
       deviceInfo = \<lparr> desktop = 0, mobile = 0, tablet = 0 \<rparr>,
       browserInfo = \<lparr> chrome = 0, firefox = 0, safari = 0, edge = 0, others = 0 \<rparr> \<rparr>"

text \<open>
  The collection is the list of its documents. \<open>findOne({ date: today })\<close> returns the
  first document of that date. \<open>save\<close> of a document built by \<open>new\<close> inserts it, \<open>save\<close> of
  a document that \<open>findOne\<close> returned overwrites that document.
\<close>

definition findOne :: "time \<Rightarrow> 'r bucket list \<Rightarrow> 'r bucket option" where
  "findOne today store = find (\<lambda>b. date b = today) store"

fun replace_first :: "('a \<Rightarrow> bool) \<Rightarrow> 'a \<Rightarrow> 'a list \<Rightarrow> 'a list" where
  "replace_first P y [] = []"
| "replace_first P y (x # xs) = (if P x then y # xs else x # replace_first P y xs)"

definition saveAnalytics :: "'r bucket \<Rightarrow> 'r bucket list \<Rightarrow> 'r bucket list" where
  "saveAnalytics a store =
     (case findOne (date a) store of
        None \<Rightarrow> store @ [a]
      | Some _ \<Rightarrow> replace_first (\<lambda>b. date b = date a) a store)"

subsection \<open>Recording\<close>

text \<open>
  What \<open>recordWebsiteVisit\<close> reads of the request: \<open>req.ip\<close>, \<open>req.connection.remoteAddress\<close>
  and the \<open>User-Agent\<close> header, each possibly absent. \<open>a || b\<close> is \<open>b\<close> when \<open>a\<close> is absent
  or the empty string. \<open>s.includes(t)\<close>, here \<open>str_includes s t\<close>, holds when \<open>t\<close> occurs in
  \<open>s\<close> as a substring.
\<close>

record request =
  req_ip :: "string option"
  remoteAddress :: "string option"
  header_User_Agent :: "string option"

definition or_else :: "string option \<Rightarrow> string option \<Rightarrow> string option" where
  "or_else a b = (case a of None \<Rightarrow> b | Some s \<Rightarrow> if s = [] then b else Some s)"

fun str_includes :: "string \<Rightarrow> string \<Rightarrow> bool" where
  "str_includes [] t = (t = [])"
| "str_includes (c # cs) t = (prefix t (c # cs) \<or> str_includes cs t)"

definition recordWebsiteVisit :: "time \<Rightarrow> request \<Rightarrow> 'r bucket list \<Rightarrow> 'r bucket list" where
  "recordWebsiteVisit now req store =
     (let today = setHours_0_0_0_0 now;
          the_ip = or_else (req_ip req) (remoteAddress req);
          agent = (case or_else (header_User_Agent req) (Some []) of None \<Rightarrow> [] | Some s \<Rightarrow> s);
          analytics0 = (case findOne today store of None \<Rightarrow> newAnalytics today | Some a \<Rightarrow> a);
          existingVisitor =
            find (\<lambda>v. ip v = the_ip \<and> userAgent v = agent) (uniqueVisitors analytics0);
          analytics1 =
            (if existingVisitor = None
             then analytics0\<lparr>uniqueVisitors := uniqueVisitors analytics0 @
                    [\<lparr> ip = the_ip, userAgent = agent, timestamp = now \<rparr>]\<rparr>
             else analytics0);
          analytics2 = analytics1\<lparr>websiteVisits := websiteVisits analytics1 + 1\<rparr>;
          analytics3 =
            (if str_includes agent ''Mobile''
             then analytics2\<lparr>deviceInfo := (deviceInfo analytics2)
                    \<lparr>mobile := mobile (deviceInfo analytics2) + 1\<rparr>\<rparr>
             else if str_includes agent ''Tablet''
             then analytics2\<lparr>deviceInfo := (deviceInfo analytics2)
                    \<lparr>tablet := tablet (deviceInfo analytics2) + 1\<rparr>\<rparr>
             else analytics2\<lparr>deviceInfo := (deviceInfo analytics2)
                    \<lparr>desktop := desktop (deviceInfo analytics2) + 1\<rparr>\<rparr>);
          analytics4 =
            (if str_includes agent ''Chrome''
             then analytics3\<lparr>browserInfo := (browserInfo analytics3)
                    \<lparr>chrome := chrome (browserInfo analytics3) + 1\<rparr>\<rparr>
             else if str_includes agent ''Firefox''
             then analytics3\<lparr>browserInfo := (browserInfo analytics3)
                    \<lparr>firefox := firefox (browserInfo analytics3) + 1\<rparr>\<rparr>
             else if str_includes agent ''Safari''
             then analytics3\<lparr>browserInfo := (browserInfo analytics3)
                    \<lparr>safari := safari (browserInfo analytics3) + 1\<rparr>\<rparr>
             else if str_includes agent ''Edge''
             then analytics3\<lparr>browserInfo := (browserInfo analytics3)
                    \<lparr>edge := edge (browserInfo analytics3) + 1\<rparr>\<rparr>
             else analytics3\<lparr>browserInfo := (browserInfo analytics3)
                    \<lparr>others := others (browserInfo analytics3) + 1\<rparr>\<rparr>)
      in saveAnalytics analytics4 store)"

text \<open>
  \<open>recordJobView\<close> and \<open>recordJobClick\<close> look the job's entry up in the day's list: the
  entry found has its count raised in place, a missing entry is pushed with count 1.
\<close>

definition count_event :: "'r \<Rightarrow> 'r job_count list \<Rightarrow> 'r job_count list" where
  "count_event j entries =
     (case find (\<lambda>e. jobId e = j) entries of
        Some existing \<Rightarrow>
          replace_first (\<lambda>e. jobId e = j) (existing\<lparr>count := count existing + 1\<rparr>) entries
      | None \<Rightarrow> entries @ [\<lparr> jobId = j, count = 1 \<rparr>])"

definition recordJobView :: "time \<Rightarrow> 'r \<Rightarrow> 'r bucket list \<Rightarrow> 'r bucket list" where
  "recordJobView now j store =
     (let today = setHours_0_0_0_0 now;
          analytics0 = (case findOne today store of None \<Rightarrow> newAnalytics today | Some a \<Rightarrow> a)
      in saveAnalytics (analytics0\<lparr>jobViews := count_event j (jobViews analytics0)\<rparr>) store)"

definition recordJobClick :: "time \<Rightarrow> 'r \<Rightarrow> 'r bucket list \<Rightarrow> 'r bucket list" where
  "recordJobClick now j store =
     (let today = setHours_0_0_0_0 now;
          analytics0 = (case findOne today store of None \<Rightarrow> newAnalytics today | Some a \<Rightarrow> a)
      in saveAnalytics (analytics0\<lparr>jobClicks := count_event j (jobClicks analytics0)\<rparr>) store)"

subsection \<open>Sequences of recorded events\<close>

datatype event =
    Visit time request
  | JobView time objectId
  | JobClick time objectId

fun record_event :: "event \<Rightarrow> objectId bucket list \<Rightarrow> objectId bucket list" where
  "record_event (Visit now req) store = recordWebsiteVisit now req store"
| "record_event (JobView now j) store = recordJobView now j store"
| "record_event (JobClick now j) store = recordJobClick now j store"

fun record_all :: "event list \<Rightarrow> objectId bucket list \<Rightarrow> objectId bucket list" where
  "record_all [] store = store"
| "record_all (e # es) store = record_all es (record_event e store)"

text \<open>The device counters and the browser counters of a bucket both sum to its visits.\<close>

definition counters_agree :: "'r bucket \<Rightarrow> bool" where
  "counters_agree b =
     (desktop (deviceInfo b) + mobile (deviceInfo b) + tablet (deviceInfo b) = websiteVisits b
      \<and> chrome (browserInfo b) + firefox (browserInfo b) + safari (browserInfo b)
          + edge (browserInfo b) + others (browserInfo b) = websiteVisits b)"

section \<open>JavaScript numbers\<close>

text \<open>
  A finite JavaScript number is a binary64 value, here the rational it denotes. \<open>fl x\<close> is
  the rational \<open>x\<close> rounded to the nearest number with a 53-bit significand, ties to the
  even significand, as every arithmetic operation of the language rounds its exact result:
  \<open>x\<close> is scaled by a power of two into \<open>[2^52, 2^53)\<close>, rounded there to an integer,
  and scaled back. Overflow and subnormal results are outside the model; the quotients and
  products below stay far away from both.
\<close>

function scale_up :: "rat \<Rightarrow> rat" where
  "scale_up y = (if 0 < y \<and> y < 2 ^ 52 then scale_up (2 * y) else y)"
  by pat_completeness auto
termination
proof (relation "measure (\<lambda>y. nat \<lfloor>2 ^ 52 / y\<rfloor>)")
  show "wf (measure (\<lambda>y::rat. nat \<lfloor>2 ^ 52 / y\<rfloor>))"
    by simp
next
  fix y :: rat
  assume a: "0 < y \<and> y < 2 ^ 52"
  define z where "z = 2 ^ 52 / y"
  have z: "1 \<le> z"
    using a by (simp add: z_def)
  have "\<lfloor>z / 2\<rfloor> < \<lfloor>z\<rfloor>"
  proof -
    have "z / 2 < of_int \<lfloor>z\<rfloor>"
    proof (cases "z < 2")
      case True
      with z have "\<lfloor>z\<rfloor> = 1" by linarith
      with True show ?thesis by simp
    next
      case False
      then have "z / 2 \<le> z - 1" by simp
      also have "\<dots> < of_int \<lfloor>z\<rfloor>" by linarith
      finally show ?thesis .
    qed
    then show ?thesis by (simp add: floor_less_iff)
  qed
  moreover have "0 < \<lfloor>z\<rfloor>"
    using z by linarith
  moreover have "2 ^ 52 / (2 * y) = z / 2"
    by (simp add: z_def)
  ultimately show "(2 * y, y) \<in> measure (\<lambda>y. nat \<lfloor>2 ^ 52 / y\<rfloor>)"
    by (simp add: z_def)
qed

function scale_down :: "rat \<Rightarrow> rat" where
  "scale_down y = (if 2 ^ 53 \<le> y then scale_down (y / 2) else y)"
  by pat_completeness auto
termination
proof (relation "measure (\<lambda>y. nat \<lfloor>y\<rfloor>)")
  show "wf (measure (\<lambda>y::rat. nat \<lfloor>y\<rfloor>))"
    by simp
next
  fix y :: rat
  assume a: "2 ^ 53 \<le> y"
  have "(2::rat) \<le> 2 ^ 53" by simp
  with a have "2 \<le> y" by linarith
  then have "y / 2 \<le> y - 1" by simp
  also have "\<dots> < of_int \<lfloor>y\<rfloor>" by linarith
  finally have "\<lfloor>y / 2\<rfloor> < \<lfloor>y\<rfloor>"
    by (simp add: floor_less_iff)
  moreover have "0 < \<lfloor>y\<rfloor>"
  proof -
    have "(1::rat) \<le> 2 ^ 53" by simp
    with a have "1 \<le> y" by linarith
    then show ?thesis by linarith
  qed
  ultimately show "(y / 2, y) \<in> measure (\<lambda>y. nat \<lfloor>y\<rfloor>)"
    by simp
qed

definition round_ties_even :: "rat \<Rightarrow> int" where
  "round_ties_even y =
     (let f = \<lfloor>y\<rfloor>; r = y - of_int f
      in if r < 1 / 2 then f else if 1 / 2 < r then f + 1 else if even f then f else f + 1)"

definition fl_pos :: "rat \<Rightarrow> rat" where
  "fl_pos x = (let y = scale_down (scale_up x) in of_int (round_ties_even y) * (x / y))"

definition fl :: "rat \<Rightarrow> rat" where
  "fl x = (if x = 0 then 0 else if x < 0 then - fl_pos (- x) else fl_pos x)"

text \<open>
  \<open>x.toFixed(2)\<close> for \<open>0 \<le> x < 10^21\<close>: \<open>n\<close> is the integer for which \<open>n / 100 - x\<close> is
  closest to zero, the larger one when there are two; the result is the decimal numeral of
  \<open>n\<close>, padded with zeros on the left to three digits, with a point before the last two.
\<close>

definition digit :: "nat \<Rightarrow> char" where
  "digit d = ''0123456789'' ! d"

function decimal :: "nat \<Rightarrow> string" where
  "decimal n = (if n < 10 then [digit n] else decimal (n div 10) @ [digit (n mod 10)])"
  by pat_completeness auto
termination
  by (relation "measure (\<lambda>n. n)") auto

definition hundredths :: "nat \<Rightarrow> string" where
  "hundredths n =
     (let m = decimal n;
          m' = (if length m \<le> 2 then replicate (3 - length m) (CHR ''0'') @ m else m)
      in take (length m' - 2) m' @ ''.'' @ drop (length m' - 2) m')"

definition toFixed_n :: "rat \<Rightarrow> nat" where
  "toFixed_n x = nat \<lfloor>x * 100 + 1 / 2\<rfloor>"

definition toFixed_2 :: "rat \<Rightarrow> string" where
  "toFixed_2 x = hundredths (toFixed_n x)"

text \<open>A value that is either a number (a count) or a string.\<close>

datatype js_value = Num nat | Str string

declare scale_up.simps [simp del] scale_down.simps [simp del] decimal.simps [simp del]

section \<open>Reporting\<close>

text \<open>
  \<open>getAnalyticsForDateRange\<close> finds the documents whose date lies between the two bounds
  and populates the two paths \<open>jobViews.jobId\<close> and \<open>jobClicks.jobId\<close>. Populating a
  reference replaces the ObjectId by the selected fields of the job with that id, and by
  \<open>null\<close> when no job matches; the entry that holds the reference stays in its list. (The
  routes that read the result test \<open>view.jobId\<close> for \<open>null\<close>, and the export prints such
  an entry as \<open>'Unknown'\<close>.) The \<open>match\<close> condition \<open>status \<noteq> null\<close> holds of every job
  document of the model.
\<close>

record job_ref =
  ref_id :: objectId
  ref_companyName :: string
  ref_role :: string
  ref_location :: string
  ref_datePosted :: time
  ref_status :: job_status

definition select_fields :: "job \<Rightarrow> job_ref" where
  "select_fields j =
     \<lparr> ref_id = oid j, ref_companyName = companyName j, ref_role = role j,
       ref_location = location j, ref_datePosted = datePosted j, ref_status = status j \<rparr>"

definition populate_ref :: "job list \<Rightarrow> objectId \<Rightarrow> job_ref option" where
  "populate_ref js i = map_option select_fields (findById js i)"

definition populate_entries :: "job list \<Rightarrow> objectId job_count list \<Rightarrow> job_ref option job_count list" where
  "populate_entries js entries =
     map (\<lambda>e. \<lparr> jobId = populate_ref js (jobId e), count = count e \<rparr>) entries"

definition populate :: "job list \<Rightarrow> objectId bucket \<Rightarrow> job_ref option bucket" where
  "populate js b =
     \<lparr> date = date b, websiteVisits = websiteVisits b, uniqueVisitors = uniqueVisitors b,
       jobViews = populate_entries js (jobViews b),
       jobClicks = populate_entries js (jobClicks b),
       deviceInfo = deviceInfo b, browserInfo = browserInfo b \<rparr>"

definition getAnalyticsForDateRange ::
    "job list \<Rightarrow> objectId bucket list \<Rightarrow> time \<Rightarrow> time \<Rightarrow> job_ref option bucket list" where
  "getAnalyticsForDateRange js store startDate endDate =
     map (populate js) (filter (\<lambda>b. startDate \<le> date b \<and> date b \<le> endDate) store)"

text \<open>
  \<open>getDashboardAnalytics(days)\<close> at clock value \<open>now\<close>. \<open>xs.reduce(f, 0)\<close> is a left
  fold. The totals are counts; the quotient \<open>totalJobClicks / totalJobViews * 100\<close> is
  computed in binary64, one rounding for the division and one for the product.
\<close>

record dashboard =
  totalVisits :: nat
  totalUniqueVisitors :: nat
  totalJobViews :: nat
  totalJobClicks :: nat
  dailyAnalytics :: "job_ref option bucket list"
  conversionRate :: js_value

definition getDashboardAnalytics ::
    "time \<Rightarrow> int \<Rightarrow> job list \<Rightarrow> objectId bucket list \<Rightarrow> dashboard" where
  "getDashboardAnalytics now days js store =
     (let endDate = setHours_23_59_59_999 now;
          startDate = setHours_0_0_0_0 (setDate_back now days);
          analytics = getAnalyticsForDateRange js store startDate endDate;
          totalVisits = foldl (\<lambda>sum day. sum + websiteVisits day) 0 analytics;
          totalUniqueVisitors = foldl (\<lambda>sum day. sum + length (uniqueVisitors day)) 0 analytics;
          totalJobViews =
            foldl (\<lambda>sum day. sum + foldl (\<lambda>viewSum view. viewSum + count view) 0 (jobViews day))
              0 analytics;
          totalJobClicks =
            foldl (\<lambda>sum day. sum + foldl (\<lambda>clickSum click. clickSum + count click) 0 (jobClicks day))
              0 analytics
      in \<lparr> totalVisits = totalVisits,
           totalUniqueVisitors = totalUniqueVisitors,
           totalJobViews = totalJobViews,
           totalJobClicks = totalJobClicks,
           dailyAnalytics = analytics,
           conversionRate =
             (if totalJobViews > 0
              then Str (toFixed_2 (fl (fl (of_nat totalJobClicks / of_nat totalJobViews) * 100)))
              else Num 0) \<rparr>)"

text \<open>
  The calendar day of a time, counted from the epoch, and the window of the specification's
  words: the last \<open>days\<close> calendar days including today.
\<close>

definition day_of :: "time \<Rightarrow> int" where
  "day_of t = t div DAY_MS"

definition in_last_days_including_today :: "time \<Rightarrow> int \<Rightarrow> time \<Rightarrow> bool" where
  "in_last_days_including_today now days d =
     (day_of now - (days - 1) \<le> day_of d \<and> day_of d \<le> day_of now)"

text \<open>
  The routes of \<open>analyticsRoutes.js\<close> (\<open>/jobs\<close>, \<open>/jobs/:id\<close>, \<open>/companies\<close>, \<open>/trends\<close>,
  \<open>/export\<close>) select their buckets for \<open>days\<close> in the same way: from the clock value moved
  back by \<open>days\<close> days, not truncated to midnight, to the clock value.
\<close>

definition routes_range_query ::
    "time \<Rightarrow> int \<Rightarrow> job list \<Rightarrow> objectId bucket list \<Rightarrow> job_ref option bucket list" where
  "routes_range_query now days js store =
     (let endDate = now;
          startDate = setDate_back now days
      in getAnalyticsForDateRange js store startDate endDate)"

text \<open>
  The conversion rate in the specification's words: 0 when there are no views, otherwise
  \<open>100 * clicks / views\<close> rounded to two decimals. The quotient is exact here, and a tie
  is rounded upwards, as \<open>toFixed\<close> rounds the value it is given.
\<close>

definition spec_conversionRate :: "nat \<Rightarrow> nat \<Rightarrow> js_value" where
  "spec_conversionRate clicks_total views_total =
     (if views_total = 0 then Num 0
      else Str (toFixed_2 (100 * of_nat clicks_total / of_nat views_total)))"

section \<open>The public routes\<close>

text \<open>
  The routes work on both collections. A call into the \<open>Analytics\<close> model either succeeds
  and leaves its collection updated, or is rejected by the storage layer; \<open>analytics_up\<close>
  says which. The \<open>Job\<close> collection answers throughout.
\<close>

datatype error = StorageFailure

record db =
  jobs :: "job list"
  buckets :: "objectId bucket list"
  analytics_up :: bool

definition await_Analytics ::
    "(objectId bucket list \<Rightarrow> objectId bucket list) \<Rightarrow> db \<Rightarrow> error + db" where
  "await_Analytics f d =
     (if analytics_up d then Inr (d\<lparr>buckets := f (buckets d)\<rparr>) else Inl StorageFailure)"

text \<open>
  The middleware \<open>trackAnalytics\<close> awaits \<open>recordWebsiteVisit\<close> inside \<open>try\<close> and calls
  \<open>next()\<close> in both branches; it is given the rest of the route as \<open>next\<close>.
\<close>

definition trackAnalytics ::
    "time \<Rightarrow> request \<Rightarrow> (db \<Rightarrow> response \<times> db) \<Rightarrow> db \<Rightarrow> response \<times> db" where
  "trackAnalytics now req next d =
     (case await_Analytics (recordWebsiteVisit now req) d of
        Inr d' \<Rightarrow> next d'
      | Inl err \<Rightarrow> next d)"

text \<open>
  \<open>GET /api/jobs/:id\<close>: the handler body is one \<open>try\<close> block, whose \<open>catch\<close> answers 500.
\<close>

definition get_job_handler :: "time \<Rightarrow> objectId \<Rightarrow> db \<Rightarrow> response \<times> db" where
  "get_job_handler now i d =
     (case findById (jobs d) i of
        None \<Rightarrow> ((404, Message ''Job not found''), d)
      | Some job \<Rightarrow>
          if status job \<noteq> Active \<or> \<not> isActive job
          then ((404, Message ''Job not found''), d)
          else
            (let job' = incrementViews now job;
                 d1 = d\<lparr>jobs := save job' (jobs d)\<rparr>
             in case await_Analytics (recordJobView now (oid job')) d1 of
                  Inl err \<Rightarrow> ((500, Message ''Error fetching job''), d1)
                | Inr d2 \<Rightarrow> ((200, JobDoc job'), d2)))"

definition GET_job :: "time \<Rightarrow> request \<Rightarrow> objectId \<Rightarrow> db \<Rightarrow> response \<times> db" where
  "GET_job now req i d = trackAnalytics now req (get_job_handler now i) d"

text \<open>\<open>POST /api/jobs/:id/click\<close>, which has no middleware.\<close>

definition POST_click :: "time \<Rightarrow> objectId \<Rightarrow> db \<Rightarrow> response \<times> db" where
  "POST_click now i d =
     (case findById (jobs d) i of
        None \<Rightarrow> ((404, Message ''Job not found''), d)
      | Some job \<Rightarrow>
          if status job \<noteq> Active \<or> \<not> isActive job
          then ((404, Message ''Job not found''), d)
          else
            (let job' = incrementClicks now job;
                 d1 = d\<lparr>jobs := save job' (jobs d)\<rparr>
             in case await_Analytics (recordJobClick now (oid job')) d1 of
                  Inl err \<Rightarrow> ((500, Message ''Error recording click''), d1)
                | Inr d2 \<Rightarrow> ((200, ClickRecorded ''Click recorded'' (hiringLink job')), d2)))"

section \<open>The automatic pass: properties\<close>

lemma DAY_MS_pos: "0 < DAY_MS"
  by (simp add: DAY_MS_def)

lemma fst_updateMany:
  "fst (updateMany flt upd js) = map (\<lambda>d. if flt d then upd d else d) js"
  unfolding updateMany_def by (rule fst_conv)

lemma snd_updateMany:
  "snd (updateMany flt upd js) = length (filter (\<lambda>d. flt d \<and> upd d \<noteq> d) js)"
  unfolding updateMany_def by (rule snd_conv)

lemma pass_is_two_steps:
  "fst (processStatusChanges c js) = map (inactive_step c) (map (dump_step c) js)"
  unfolding processStatusChanges_def Let_def fst_conv fst_updateMany dump_step_def inactive_step_def
  by (rule refl)

text \<open>An update that changes the status changes the document, so it is counted.\<close>

lemma status_update_neq: "status (upd d) \<noteq> status d \<Longrightarrow> upd d \<noteq> d"
  by auto

lemma modified_filter:
  assumes "\<And>d. flt d \<Longrightarrow> status (upd d) \<noteq> status d"
  shows "snd (updateMany flt upd js) = length (filter flt js)"
proof -
  have "flt d \<and> upd d \<noteq> d \<longleftrightarrow> flt d" for d
    using assms [of d] status_update_neq [of upd d] by blast
  then show ?thesis
    unfolding snd_updateMany by (simp only:)
qed

lemma movedToDump_count:
  "movedToDump (snd (processStatusChanges c js)) =
     length (filter (\<lambda>d. status d = Active \<and> datePosted d < setDate_back (at_sevenDaysAgo c) 7) js)"
proof -
  have "snd (updateMany (\<lambda>d. status d = Active \<and> datePosted d < setDate_back (at_sevenDaysAgo c) 7)
              (\<lambda>d. d\<lparr>status := Dump, movedToDumpAt := Some (at_movedToDumpAt c),
                      lastStatusChange := at_dumpStatusChange c\<rparr>) js) =
        length (filter (\<lambda>d. status d = Active \<and> datePosted d < setDate_back (at_sevenDaysAgo c) 7) js)"
    by (rule modified_filter) simp
  then show ?thesis
    unfolding processStatusChanges_def Let_def snd_conv status_changes.select_convs
    by (simp only:)
qed

lemma movedToInactive_count:
  "movedToInactive (snd (processStatusChanges c js)) =
     length (filter (\<lambda>d. status d = Dump \<and>
                         lt_date (movedToDumpAt d) (setDate_back (at_thirtyDaysAgo c) 30))
       (map (dump_step c) js))"
proof -
  have "snd (updateMany (\<lambda>d. status d = Dump \<and>
                               lt_date (movedToDumpAt d) (setDate_back (at_thirtyDaysAgo c) 30))
              (\<lambda>d. d\<lparr>status := Inactive, isActive := False,
                      lastStatusChange := at_inactiveStatusChange c\<rparr>) ks) =
        length (filter (\<lambda>d. status d = Dump \<and>
                         lt_date (movedToDumpAt d) (setDate_back (at_thirtyDaysAgo c) 30)) ks)"
    for ks
    by (rule modified_filter) simp
  then show ?thesis
    unfolding processStatusChanges_def Let_def snd_conv status_changes.select_convs
      fst_updateMany dump_step_def
    by (simp only:)
qed

lemma dump_step_id:
  "\<not> (status x = Active \<and> datePosted x < setDate_back (at_sevenDaysAgo c) 7) \<Longrightarrow>
     dump_step c x = x"
  unfolding dump_step_def by (rule if_not_P)

lemma inactive_step_id:
  "\<not> (status x = Dump \<and> lt_date (movedToDumpAt x) (setDate_back (at_thirtyDaysAgo c) 30)) \<Longrightarrow>
     inactive_step c x = x"
  unfolding inactive_step_def by (rule if_not_P)

text \<open>
  As long as the clock has not run back by thirty days between the reading for
  \<open>thirtyDaysAgo\<close> and the reading stamped into \<open>movedToDumpAt\<close>, the second update
  leaves alone what the first one has just moved.
\<close>

lemma inactive_after_dump_step:
  assumes "at_thirtyDaysAgo c \<le> at_movedToDumpAt c + 30 * DAY_MS" and "status d = Active"
  shows "inactive_step c (dump_step c d) = dump_step c d"
  using assms by (simp add: inactive_step_def dump_step_def lt_date_def setDate_back_def)

subsection \<open>Under one clock value\<close>

lemma frozen_simps:
  "at_sevenDaysAgo (frozen now) = now" "at_thirtyDaysAgo (frozen now) = now"
  "at_movedToDumpAt (frozen now) = now" "at_dumpStatusChange (frozen now) = now"
  "at_inactiveStatusChange (frozen now) = now"
  by (simp_all add: frozen_def)

lemma before_seven_days_ago: "(x < setDate_back now 7) = (7 * DAY_MS < now - x)"
  by (auto simp: setDate_back_def)

lemma before_thirty_days_ago:
  "lt_date v (setDate_back now 30) = (\<exists>t. v = Some t \<and> 30 * DAY_MS < now - t)"
  by (cases v) (auto simp: setDate_back_def lt_date_def)

lemma dump_step_frozen:
  "dump_step (frozen now) d =
     (if status d = Active \<and> 7 * DAY_MS < now - datePosted d
      then d\<lparr>status := Dump, movedToDumpAt := Some now, lastStatusChange := now\<rparr> else d)"
  unfolding dump_step_def frozen_simps before_seven_days_ago by (rule refl)

lemma inactive_step_frozen:
  "inactive_step (frozen now) d =
     (if status d = Dump \<and> (\<exists>t. movedToDumpAt d = Some t \<and> 30 * DAY_MS < now - t)
      then d\<lparr>status := Inactive, isActive := False, lastStatusChange := now\<rparr> else d)"
  unfolding inactive_step_def frozen_simps before_thirty_days_ago by (rule refl)

lemma pass_nth:
  "i < length js \<Longrightarrow>
     fst (ProcessTransitions now js) ! i =
       inactive_step (frozen now) (dump_step (frozen now) (js ! i))"
  by (simp add: ProcessTransitions_def pass_is_two_steps)

lemma pass_singleton:
  "fst (ProcessTransitions now [d]) = [inactive_step (frozen now) (dump_step (frozen now) d)]"
  by (simp add: ProcessTransitions_def pass_is_two_steps)

subsection \<open>Active jobs move to dump when they are more than seven days old\<close>

text \<open>
  C1, as stated, at the boundary: a job posted at time 0 is exactly seven days old at
  \<open>now = 7 * DAY_MS\<close>, so \<open>now - datePosted \<ge> 7 days\<close> holds, yet the pass leaves it
  active. The filter of the first update is \<open>datePosted < sevenDaysAgo\<close>, a strict
  comparison.
\<close>

theorem exactly_seven_days_old_stays_active:
  "7 * DAY_MS - datePosted (newJob 1 ''Acme'' ''https://acme.example/apply'' 9 0) \<ge> 7 * DAY_MS
   \<and> status (newJob 1 ''Acme'' ''https://acme.example/apply'' 9 0) = Active
   \<and> map status (fst (ProcessTransitions (7 * DAY_MS)
                        [newJob 1 ''Acme'' ''https://acme.example/apply'' 9 0])) = [Active]"
  by (simp add: pass_singleton dump_step_frozen inactive_step_frozen newJob_def)

text \<open>
  C1, amended: for every job of the store with status active, \<open>ProcessTransitions now\<close>
  changes its status to dump if and only if \<open>now - datePosted\<close> is strictly more than seven
  days. A job that is moved is the old document with \<open>status = dump\<close>,
  \<open>movedToDumpAt = now\<close> and \<open>lastStatusChange = now\<close>; a job of age seven days or less is
  left exactly as it was. The job is followed by its position in the collection.
\<close>

theorem active_to_dump_iff_older_than_seven_days:
  assumes "i < length js" and "status (js ! i) = Active"
  shows "(status (fst (ProcessTransitions now js) ! i) = Dump
            \<longleftrightarrow> 7 * DAY_MS < now - datePosted (js ! i))
       \<and> fst (ProcessTransitions now js) ! i =
           (if 7 * DAY_MS < now - datePosted (js ! i)
            then (js ! i)\<lparr>status := Dump, movedToDumpAt := Some now, lastStatusChange := now\<rparr>
            else js ! i)"
  using assms DAY_MS_pos
  by (simp add: pass_nth dump_step_frozen inactive_step_frozen)

text \<open>
  The scenario of the specification: a job posted seven days and one second before \<open>now\<close>
  is in dump after the pass, stamped with \<open>now\<close>.
\<close>

theorem active_to_dump_iff_older_than_seven_days_witness:
  "status (fst (ProcessTransitions (7 * DAY_MS + 1000)
             [newJob 1 ''Acme'' ''https://acme.example/apply'' 9 0]) ! 0) = Dump
   \<and> movedToDumpAt (fst (ProcessTransitions (7 * DAY_MS + 1000)
             [newJob 1 ''Acme'' ''https://acme.example/apply'' 9 0]) ! 0) = Some (7 * DAY_MS + 1000)"
  using active_to_dump_iff_older_than_seven_days
    [of 0 "[newJob 1 ''Acme'' ''https://acme.example/apply'' 9 0]" "7 * DAY_MS + 1000"]
  by (simp add: newJob_def)

subsection \<open>No job takes both steps in one pass\<close>

text \<open>
  C4: within one \<open>ProcessTransitions now\<close>, a job that was active before the pass is never
  inactive after it; when the pass moves it to dump it carries \<open>movedToDumpAt = now\<close>; and
  a job that the pass moves to inactive was in dump before the pass, with a
  \<open>movedToDumpAt\<close> that lies at least thirty days before \<open>now\<close>.
\<close>

theorem no_double_transition_in_one_pass:
  assumes "i < length js"
  shows "(status (js ! i) = Active \<longrightarrow> status (fst (ProcessTransitions now js) ! i) \<noteq> Inactive)
       \<and> (status (js ! i) = Active \<and> status (fst (ProcessTransitions now js) ! i) = Dump
            \<longrightarrow> movedToDumpAt (fst (ProcessTransitions now js) ! i) = Some now)
       \<and> (status (js ! i) \<noteq> Inactive \<and> status (fst (ProcessTransitions now js) ! i) = Inactive
            \<longrightarrow> status (js ! i) = Dump \<and>
                (\<exists>t. movedToDumpAt (js ! i) = Some t \<and> 30 * DAY_MS \<le> now - t))"
proof -
  have clock: "at_thirtyDaysAgo (frozen now) \<le> at_movedToDumpAt (frozen now) + 30 * DAY_MS"
    using DAY_MS_pos by (simp add: frozen_simps)
  have a: "status (js ! i) = Active \<Longrightarrow>
      fst (ProcessTransitions now js) ! i = dump_step (frozen now) (js ! i)"
    using assms by (simp add: pass_nth inactive_after_dump_step [OF clock])
  have 1: "status (js ! i) = Active \<longrightarrow> status (fst (ProcessTransitions now js) ! i) \<noteq> Inactive"
    using a by (simp add: dump_step_frozen)
  have 2: "status (js ! i) = Active \<and> status (fst (ProcessTransitions now js) ! i) = Dump
            \<longrightarrow> movedToDumpAt (fst (ProcessTransitions now js) ! i) = Some now"
  proof (intro impI, elim conjE)
    assume act: "status (js ! i) = Active"
      and dmp: "status (fst (ProcessTransitions now js) ! i) = Dump"
    show "movedToDumpAt (fst (ProcessTransitions now js) ! i) = Some now"
    proof (cases "7 * DAY_MS < now - datePosted (js ! i)")
      case True
      with act show ?thesis by (simp add: a dump_step_frozen)
    next
      case False
      with act dmp show ?thesis by (simp add: a dump_step_frozen)
    qed
  qed
  have 3: "status (js ! i) \<noteq> Inactive \<and> status (fst (ProcessTransitions now js) ! i) = Inactive
            \<longrightarrow> status (js ! i) = Dump \<and>
                (\<exists>t. movedToDumpAt (js ! i) = Some t \<and> 30 * DAY_MS \<le> now - t)"
  proof (cases "status (js ! i)")
    case Active
    with 1 show ?thesis by simp
  next
    case Dump
    then have "dump_step (frozen now) (js ! i) = js ! i"
      by (simp add: dump_step_def)
    with Dump assms show ?thesis
      by (auto simp: pass_nth inactive_step_frozen split: if_splits)
  next
    case Inactive
    then show ?thesis by simp
  qed
  from 1 2 3 show ?thesis by blast
qed

text \<open>
  A job posted forty days before \<open>now\<close> and still active: the pass moves it to dump,
  stamped \<open>now\<close>, and not on to inactive.
\<close>

theorem no_double_transition_in_one_pass_witness:
  "status (fst (ProcessTransitions (40 * DAY_MS)
             [newJob 1 ''Acme'' ''https://acme.example/apply'' 9 0]) ! 0) = Dump
   \<and> movedToDumpAt (fst (ProcessTransitions (40 * DAY_MS)
             [newJob 1 ''Acme'' ''https://acme.example/apply'' 9 0]) ! 0) = Some (40 * DAY_MS)"
proof -
  let ?js = "[newJob 1 ''Acme'' ''https://acme.example/apply'' 9 0]"
  have act: "status (?js ! 0) = Active"
    by (simp add: newJob_def)
  have "status (fst (ProcessTransitions (40 * DAY_MS) ?js) ! 0) = Dump"
    using DAY_MS_pos
    by (simp add: pass_singleton dump_step_frozen inactive_step_frozen newJob_def)
  with act no_double_transition_in_one_pass [of 0 ?js "40 * DAY_MS"] show ?thesis
    by simp
qed

subsection \<open>A second pass at the same clock value does nothing\<close>

text \<open>
  C5: for every store and every \<open>now\<close>, running \<open>ProcessTransitions now\<close> on the store
  that \<open>ProcessTransitions now\<close> has produced returns that store unchanged, with
  \<open>movedToDump = 0\<close> and \<open>movedToInactive = 0\<close>.
\<close>

theorem ProcessTransitions_idempotent:
  "ProcessTransitions now (fst (ProcessTransitions now js)) =
     (fst (ProcessTransitions now js), \<lparr> movedToDump = 0, movedToInactive = 0 \<rparr>)"
proof -
  let ?c = "frozen now"
  let ?f = "\<lambda>d. inactive_step ?c (dump_step ?c d)"
  have a: "\<not> (status (?f d) = Active \<and> datePosted (?f d) < setDate_back (at_sevenDaysAgo ?c) 7)"
    for d
    unfolding frozen_simps before_seven_days_ago using DAY_MS_pos
    by (simp add: dump_step_frozen inactive_step_frozen)
  have ds: "dump_step ?c (?f d) = ?f d" for d
    by (rule dump_step_id [OF a])
  have b: "\<not> (status (?f d) = Dump \<and>
        lt_date (movedToDumpAt (?f d)) (setDate_back (at_thirtyDaysAgo ?c) 30))" for d
    unfolding frozen_simps before_thirty_days_ago using DAY_MS_pos
    by (simp add: dump_step_frozen inactive_step_frozen)
  have ia: "inactive_step ?c (?f d) = ?f d" for d
    by (rule inactive_step_id [OF b])
  have eq: "fst (ProcessTransitions now js) = map ?f js"
    by (simp add: ProcessTransitions_def pass_is_two_steps)
  have jobs: "fst (processStatusChanges ?c (map ?f js)) = map ?f js"
    by (simp add: pass_is_two_steps ds ia)
  have n1: "movedToDump (snd (processStatusChanges ?c (map ?f js))) = 0"
    unfolding movedToDump_count using a by (simp add: filter_map o_def)
  have n2: "movedToInactive (snd (processStatusChanges ?c (map ?f js))) = 0"
    unfolding movedToInactive_count using b by (simp add: filter_map o_def ds)
  have cnt: "snd (processStatusChanges ?c (map ?f js)) =
      \<lparr> movedToDump = 0, movedToInactive = 0 \<rparr>"
    using n1 n2 by (cases "snd (processStatusChanges ?c (map ?f js))") simp
  show ?thesis
    unfolding eq unfolding ProcessTransitions_def
    by (rule prod_eqI) (simp_all only: fst_conv snd_conv jobs cnt)
qed

section \<open>Manual transitions: properties\<close>

lemma findById_oid: "findById js i = Some j \<Longrightarrow> oid j = i \<and> j \<in> set js"
  unfolding findById_def by (auto simp: find_Some_iff)

lemma findById_save:
  assumes "findById js i = Some j" and "oid j' = i"
  shows "findById (save j' js) i = Some j'"
  using assms unfolding findById_def save_def
  by (induction js) (auto split: if_splits)

lemma findById_inv: "list_all P js \<Longrightarrow> findById js i = Some j \<Longrightarrow> P j"
  using findById_oid [of js i j] by (auto simp: list_all_iff)

lemma list_all_save: "list_all P js \<Longrightarrow> P j' \<Longrightarrow> list_all P (save j' js)"
  unfolding save_def by (induction js) auto

lemma put_status_found:
  "findById js i = Some j \<Longrightarrow> st \<in> set [''active'', ''dump'', ''inactive''] \<Longrightarrow>
   snd (put_status now i st js) =
     save (if st = ''active'' then reactivate now j
           else if st = ''dump'' then moveToDump now j else moveToInactive now j) js"
  by (auto simp add: put_status_def Let_def)

lemma put_status_missing: "findById js i = None \<Longrightarrow> snd (put_status now i st js) = js"
  by (simp add: put_status_def)

lemma put_status_active:
  "findById js i = Some j \<Longrightarrow>
   put_status now i ''active'' js =
     ((200, MessageJob ''Job status updated to active'' (reactivate now j)),
      save (reactivate now j) js)"
  by (simp add: put_status_def Let_def)

subsection \<open>Reactivation\<close>

lemma reactivate_fields:
  "status (reactivate now j) = Active" "isActive (reactivate now j)"
  "movedToDumpAt (reactivate now j) = None" "datePosted (reactivate now j) = now"
  "lastStatusChange (reactivate now j) = now"
  "analytics (reactivate now j) = analytics j" "oid (reactivate now j) = oid j"
  by (simp_all add: reactivate_def)

lemma reactivate_frame:
  "(reactivate now j)\<lparr>status := status j, isActive := isActive j,
      movedToDumpAt := movedToDumpAt j, lastStatusChange := lastStatusChange j,
      datePosted := datePosted j\<rparr> = j"
  by (simp add: reactivate_def)

text \<open>
  C6: for every job \<open>j\<close> that exists in the store, whatever its status, \<open>ReactivateJob\<close>
  answers 200 and stores under the same id a job \<open>j'\<close> with \<open>status = active\<close>,
  \<open>isActive = true\<close>, \<open>movedToDumpAt = null\<close> and \<open>datePosted\<close> the reactivation time; the
  view and click counters are those of \<open>j\<close>, and \<open>j'\<close> differs from \<open>j\<close> in no field other
  than \<open>status\<close>, \<open>isActive\<close>, \<open>movedToDumpAt\<close>, \<open>lastStatusChange\<close> and \<open>datePosted\<close>
  (putting the five old values back into \<open>j'\<close> gives \<open>j\<close>).
\<close>

theorem reactivate_resets_lifecycle_keeps_rest:
  assumes "findById js i = Some j"
  shows "\<exists>j'. ReactivateJob now i js =
             ((200, MessageJob ''Job status updated to active'' j'), save j' js)
           \<and> findById (save j' js) i = Some j'
           \<and> status j' = Active \<and> isActive j' \<and> movedToDumpAt j' = None \<and> datePosted j' = now
           \<and> views (analytics j') = views (analytics j)
           \<and> clicks (analytics j') = clicks (analytics j)
           \<and> j'\<lparr>status := status j, isActive := isActive j, movedToDumpAt := movedToDumpAt j,
                 lastStatusChange := lastStatusChange j, datePosted := datePosted j\<rparr> = j"
proof -
  have "oid (reactivate now j) = i"
    using findById_oid [OF assms] by (simp add: reactivate_fields)
  then have "findById (save (reactivate now j) js) i = Some (reactivate now j)"
    by (rule findById_save [OF assms])
  then show ?thesis
    unfolding ReactivateJob_def put_status_active [OF assms]
    by (intro exI [of _ "reactivate now j"]) (simp add: reactivate_fields reactivate_frame)
qed

text \<open>
  An inactive job with 12 views and 3 clicks, moved to dump at time 500, is reactivated at
  time 9000: it is stored active, with the posting date 9000 and the same counters.
\<close>

theorem reactivate_resets_lifecycle_keeps_rest_witness:
  "\<exists>j'. findById (snd (ReactivateJob 9000 1
            [(newJob 1 ''Acme'' ''https://acme.example/apply'' 9 0)
               \<lparr>status := Inactive, movedToDumpAt := Some 500, isActive := False,
                analytics := \<lparr>views = 12, clicks = 3, lastViewedAt = Some 400,
                               lastClickedAt = Some 450\<rparr>\<rparr>])) 1 = Some j'
        \<and> status j' = Active \<and> isActive j' \<and> movedToDumpAt j' = None \<and> datePosted j' = 9000
        \<and> views (analytics j') = 12 \<and> clicks (analytics j') = 3"
proof -
  let ?j = "(newJob 1 ''Acme'' ''https://acme.example/apply'' 9 0)
               \<lparr>status := Inactive, movedToDumpAt := Some 500, isActive := False,
                analytics := \<lparr>views = 12, clicks = 3, lastViewedAt = Some 400,
                               lastClickedAt = Some 450\<rparr>\<rparr>"
  have found: "findById [?j] 1 = Some ?j"
    by (simp add: findById_def newJob_def)
  from reactivate_resets_lifecycle_keeps_rest [OF found, of 9000]
  obtain j' where "ReactivateJob 9000 1 [?j] =
        ((200, MessageJob ''Job status updated to active'' j'), save j' [?j])"
    and "findById (save j' [?j]) 1 = Some j'"
    and "status j' = Active" "isActive j'" "movedToDumpAt j' = None" "datePosted j' = 9000"
    and "views (analytics j') = views (analytics ?j)"
    and "clicks (analytics j') = clicks (analytics ?j)"
    by blast
  then show ?thesis
    by (intro exI [of _ j']) simp
qed

subsection \<open>The job invariants\<close>

lemma job_inv_newJob: "job_inv (newJob i company link admin now)"
  by (simp add: job_inv_def newJob_def)

lemma job_inv_reactivate: "job_inv (reactivate now j)"
  by (simp add: job_inv_def reactivate_def)

lemma job_inv_incrementViews: "job_inv j \<Longrightarrow> job_inv (incrementViews now j)"
  by (simp add: job_inv_def incrementViews_def)

lemma job_inv_incrementClicks: "job_inv j \<Longrightarrow> job_inv (incrementClicks now j)"
  by (simp add: job_inv_def incrementClicks_def)

lemma job_inv_moveToDump:
  "job_inv j \<Longrightarrow> status j \<noteq> Inactive \<Longrightarrow> job_inv (moveToDump now j)"
  by (simp add: job_inv_def moveToDump_def)

lemma job_inv_moveToInactive:
  "job_inv j \<Longrightarrow> status j \<noteq> Active \<Longrightarrow> job_inv (moveToInactive now j)"
  by (cases "status j") (simp_all add: job_inv_def moveToInactive_def)

lemma job_inv_dump_step: "job_inv j \<Longrightarrow> job_inv (dump_step c j)"
  by (simp add: job_inv_def dump_step_def)

lemma job_inv_inactive_step: "job_inv j \<Longrightarrow> job_inv (inactive_step c j)"
  by (simp add: job_inv_def inactive_step_def)

text \<open>
  The automatic pass, reactivation and the increments keep both invariants, whatever the
  state of the job they are applied to.
\<close>

lemma automatic_pass_keeps_job_inv:
  assumes "list_all job_inv js"
  shows "list_all job_inv (apply_op (AutomaticPass now) js)"
proof -
  have "list_all job_inv (map (inactive_step (frozen now)) (map (dump_step (frozen now)) js))"
    using assms by (simp add: list_all_iff job_inv_dump_step job_inv_inactive_step)
  then show ?thesis
    by (simp add: ProcessTransitions_def pass_is_two_steps)
qed

lemma reactivate_keeps_job_inv:
  assumes "list_all job_inv js"
  shows "list_all job_inv (apply_op (Reactivate now i) js)"
proof (cases "findById js i")
  case None
  then show ?thesis
    using assms by (simp add: ReactivateJob_def put_status_missing)
next
  case (Some j)
  then show ?thesis
    using assms
    by (simp add: ReactivateJob_def put_status_found list_all_save job_inv_reactivate)
qed

lemma view_keeps_job_inv:
  assumes "list_all job_inv js"
  shows "list_all job_inv (apply_op (ViewOf now i) js)"
proof (cases "findById js i")
  case None
  then show ?thesis using assms by (simp add: IncrementView_def)
next
  case (Some j)
  then show ?thesis
    using assms findById_inv [OF assms Some]
    by (simp add: IncrementView_def list_all_save job_inv_incrementViews)
qed

lemma click_keeps_job_inv:
  assumes "list_all job_inv js"
  shows "list_all job_inv (apply_op (ClickOf now i) js)"
proof (cases "findById js i")
  case None
  then show ?thesis using assms by (simp add: IncrementClick_def)
next
  case (Some j)
  then show ?thesis
    using assms findById_inv [OF assms Some]
    by (simp add: IncrementClick_def list_all_save job_inv_incrementClicks)
qed

text \<open>
  C2 at two failing inputs, each a sequence of status updates on a freshly created job,
  which satisfies both invariants. \<open>MoveToInactive\<close> on the fresh job stores an inactive
  job whose \<open>movedToDumpAt\<close> is still \<open>null\<close>: \<open>moveToInactive\<close> never stamps it. And
  \<open>MoveToDump\<close>, \<open>MoveToInactive\<close>, \<open>MoveToDump\<close> stores a job in dump whose \<open>isActive\<close> is
  still \<open>false\<close>: \<open>moveToDump\<close> never resets it. Both stored jobs break the invariants that
  the claim says every operation preserves, and that \<open>reactivate\<close> and the automatic pass
  do preserve.
\<close>

theorem manual_moves_break_job_invariants:
  "list_all job_inv [newJob 1 ''Acme'' ''https://acme.example/apply'' 9 0]
   \<and> map (\<lambda>j. (status j, movedToDumpAt j, isActive j))
       (run_ops [ManualInactive 5000 1] [newJob 1 ''Acme'' ''https://acme.example/apply'' 9 0])
     = [(Inactive, None, False)]
   \<and> \<not> list_all job_inv
       (run_ops [ManualInactive 5000 1] [newJob 1 ''Acme'' ''https://acme.example/apply'' 9 0])
   \<and> map (\<lambda>j. (status j, movedToDumpAt j, isActive j))
       (run_ops [ManualDump 5000 1, ManualInactive 6000 1, ManualDump 7000 1]
          [newJob 1 ''Acme'' ''https://acme.example/apply'' 9 0])
     = [(Dump, Some 7000, False)]
   \<and> \<not> list_all job_inv
       (run_ops [ManualDump 5000 1, ManualInactive 6000 1, ManualDump 7000 1]
          [newJob 1 ''Acme'' ''https://acme.example/apply'' 9 0])"
  by (simp add: MoveToInactive_def MoveToDump_def put_status_def findById_def save_def Let_def
      moveToInactive_def moveToDump_def job_inv_def newJob_def)

text \<open>
  So one manual move takes a store that satisfies the invariants to one that does not.
\<close>

theorem manual_moves_break_job_invariants_witness:
  "list_all job_inv [newJob 1 ''Acme'' ''https://acme.example/apply'' 9 0]
   \<noteq> list_all job_inv
       (run_ops [ManualInactive 5000 1] [newJob 1 ''Acme'' ''https://acme.example/apply'' 9 0])"
  using manual_moves_break_job_invariants by simp

section \<open>Recording: properties\<close>

lemma list_all_replace_first:
  "list_all P xs \<Longrightarrow> P y \<Longrightarrow> list_all P (replace_first Q y xs)"
  by (induction xs) auto

lemma list_all_saveAnalytics:
  "list_all P store \<Longrightarrow> P a \<Longrightarrow> list_all P (saveAnalytics a store)"
  by (simp add: saveAnalytics_def list_all_replace_first split: option.splits)

lemma findOne_P: "list_all P store \<Longrightarrow> findOne t store = Some a \<Longrightarrow> P a"
  unfolding findOne_def by (auto simp: find_Some_iff list_all_iff)

lemma counters_agree_new: "counters_agree (newAnalytics today)"
  by (simp add: counters_agree_def newAnalytics_def)

lemma day_bucket_agree:
  "list_all counters_agree store \<Longrightarrow>
   counters_agree (case findOne today store of None \<Rightarrow> newAnalytics today | Some a \<Rightarrow> a)"
  by (auto simp: counters_agree_new findOne_P split: option.splits)

text \<open>
  A visit adds one to \<open>websiteVisits\<close>, to one device counter and to one browser counter
  of the day's bucket.
\<close>

lemma recordWebsiteVisit_agree:
  assumes "list_all counters_agree store"
  shows "list_all counters_agree (recordWebsiteVisit now req store)"
proof -
  define a0 :: "'a bucket" where
    "a0 = (case findOne (setHours_0_0_0_0 now) store of
             None \<Rightarrow> newAnalytics (setHours_0_0_0_0 now) | Some a \<Rightarrow> a)"
  have a0: "counters_agree a0"
    unfolding a0_def by (rule day_bucket_agree [OF assms])
  show ?thesis
    unfolding recordWebsiteVisit_def Let_def
    apply (rule list_all_saveAnalytics [OF assms])
    apply (fold a0_def)
    using a0 apply (simp add: counters_agree_def)
    done
qed

lemma recordJobView_agree:
  assumes "list_all counters_agree store"
  shows "list_all counters_agree (recordJobView now j store)"
  unfolding recordJobView_def Let_def
  using day_bucket_agree [OF assms, of "setHours_0_0_0_0 now"]
  by (intro list_all_saveAnalytics [OF assms]) (simp add: counters_agree_def)

lemma recordJobClick_agree:
  assumes "list_all counters_agree store"
  shows "list_all counters_agree (recordJobClick now j store)"
  unfolding recordJobClick_def Let_def
  using day_bucket_agree [OF assms, of "setHours_0_0_0_0 now"]
  by (intro list_all_saveAnalytics [OF assms]) (simp add: counters_agree_def)

lemma record_all_agree:
  "list_all counters_agree store \<Longrightarrow> list_all counters_agree (record_all es store)"
proof (induction es arbitrary: store)
  case Nil
  then show ?case by simp
next
  case (Cons e es)
  have "list_all counters_agree (record_event e store)"
    using Cons.prems
    by (cases e) (simp_all add: recordWebsiteVisit_agree recordJobView_agree recordJobClick_agree)
  then show ?case by (simp add: Cons.IH)
qed

text \<open>
  C10: in every bucket of a store built from the empty store (where each day's bucket is
  created fresh on its first event) by any sequence of \<open>RecordVisit\<close>, \<open>RecordJobView\<close> and
  \<open>RecordJobClick\<close> calls, the three device counters sum to \<open>websiteVisits\<close> and the five
  browser counters sum to \<open>websiteVisits\<close>.
\<close>

theorem device_and_browser_counters_sum_to_visits:
  "list_all counters_agree (record_all es [])"
  by (rule record_all_agree) simp

text \<open>
  Three visits on one day, two of them by the same address and agent, then two views and a
  click of job 7: one bucket, with 3 visits, 2 unique visitors, mobile 2 and desktop 1,
  chrome 1 and safari 2, and the view count 2.
\<close>

theorem device_and_browser_counters_sum_to_visits_witness:
  "list_all counters_agree
     (record_all
        [Visit 1000 \<lparr> req_ip = Some ''10.0.0.1'', remoteAddress = None,
                      header_User_Agent = Some ''Mozilla/5.0 (iPhone) Mobile Safari'' \<rparr>,
         Visit 2000 \<lparr> req_ip = Some ''10.0.0.2'', remoteAddress = None,
                      header_User_Agent = Some ''Mozilla/5.0 Chrome/120 Safari'' \<rparr>,
         Visit 3000 \<lparr> req_ip = Some ''10.0.0.1'', remoteAddress = None,
                      header_User_Agent = Some ''Mozilla/5.0 (iPhone) Mobile Safari'' \<rparr>,
         JobView 4000 7, JobView 5000 7, JobClick 6000 7] [])
   \<and> map (\<lambda>b. (websiteVisits b, length (uniqueVisitors b),
               mobile (deviceInfo b), desktop (deviceInfo b),
               chrome (browserInfo b), safari (browserInfo b), map count (jobViews b)))
       (record_all
        [Visit 1000 \<lparr> req_ip = Some ''10.0.0.1'', remoteAddress = None,
                      header_User_Agent = Some ''Mozilla/5.0 (iPhone) Mobile Safari'' \<rparr>,
         Visit 2000 \<lparr> req_ip = Some ''10.0.0.2'', remoteAddress = None,
                      header_User_Agent = Some ''Mozilla/5.0 Chrome/120 Safari'' \<rparr>,
         Visit 3000 \<lparr> req_ip = Some ''10.0.0.1'', remoteAddress = None,
                      header_User_Agent = Some ''Mozilla/5.0 (iPhone) Mobile Safari'' \<rparr>,
         JobView 4000 7, JobView 5000 7, JobClick 6000 7] [])
     = [(3, 2, 2, 1, 1, 2, [2])]"
proof (rule conjI)
  show "list_all counters_agree
     (record_all
        [Visit 1000 \<lparr> req_ip = Some ''10.0.0.1'', remoteAddress = None,
                      header_User_Agent = Some ''Mozilla/5.0 (iPhone) Mobile Safari'' \<rparr>,
         Visit 2000 \<lparr> req_ip = Some ''10.0.0.2'', remoteAddress = None,
                      header_User_Agent = Some ''Mozilla/5.0 Chrome/120 Safari'' \<rparr>,
         Visit 3000 \<lparr> req_ip = Some ''10.0.0.1'', remoteAddress = None,
                      header_User_Agent = Some ''Mozilla/5.0 (iPhone) Mobile Safari'' \<rparr>,
         JobView 4000 7, JobView 5000 7, JobClick 6000 7] [])"
    by (rule device_and_browser_counters_sum_to_visits)
next
  show "map (\<lambda>b. (websiteVisits b, length (uniqueVisitors b),
               mobile (deviceInfo b), desktop (deviceInfo b),
               chrome (browserInfo b), safari (browserInfo b), map count (jobViews b)))
       (record_all
        [Visit 1000 \<lparr> req_ip = Some ''10.0.0.1'', remoteAddress = None,
                      header_User_Agent = Some ''Mozilla/5.0 (iPhone) Mobile Safari'' \<rparr>,
         Visit 2000 \<lparr> req_ip = Some ''10.0.0.2'', remoteAddress = None,
                      header_User_Agent = Some ''Mozilla/5.0 Chrome/120 Safari'' \<rparr>,
         Visit 3000 \<lparr> req_ip = Some ''10.0.0.1'', remoteAddress = None,
                      header_User_Agent = Some ''Mozilla/5.0 (iPhone) Mobile Safari'' \<rparr>,
         JobView 4000 7, JobView 5000 7, JobClick 6000 7] [])
     = [(3, 2, 2, 1, 1, 2, [2])]"
    by (simp add: recordWebsiteVisit_def recordJobView_def recordJobClick_def Let_def
        or_else_def findOne_def saveAnalytics_def newAnalytics_def setHours_0_0_0_0_def
        DAY_MS_def count_event_def)
qed

section \<open>Reporting: properties\<close>

lemma reduce_sum: "foldl (\<lambda>s x. s + f x) a xs = a + sum_list (map f xs)"
  for a :: nat
  by (induction xs arbitrary: a) simp_all

lemma mult_le_iff_le_div:
  fixes k d D :: int
  assumes "0 < D"
  shows "(k * D \<le> d) = (k \<le> d div D)"
proof
  assume "k * D \<le> d"
  then have "(k * D) div D \<le> d div D"
    using assms by (rule zdiv_mono1)
  then show "k \<le> d div D"
    using assms by simp
next
  assume "k \<le> d div D"
  then have "k * D \<le> (d div D) * D"
    using assms by (simp add: mult_right_mono)
  also have "(d div D) * D = d - d mod D"
    by (simp add: minus_mod_eq_div_mult)
  also have "\<dots> \<le> d"
    using assms pos_mod_sign [of D d] by simp
  finally show "k * D \<le> d" .
qed

lemma start_of_day: "setHours_0_0_0_0 t = day_of t * DAY_MS"
  unfolding setHours_0_0_0_0_def day_of_def by (simp add: minus_mod_eq_div_mult)

lemma day_of_back: "day_of (setDate_back t n) = day_of t - n"
proof -
  have "t - n * DAY_MS = t + (- n) * DAY_MS" by simp
  then have "(t - n * DAY_MS) div DAY_MS = t div DAY_MS + (- n)"
    using DAY_MS_pos by (simp only: div_mult_self1)
  then show ?thesis by (simp add: day_of_def setDate_back_def)
qed

lemma from_start_of_day:
  "(setHours_0_0_0_0 (setDate_back now days) \<le> d) = (day_of now - days \<le> day_of d)"
  unfolding start_of_day day_of_back
  using mult_le_iff_le_div [OF DAY_MS_pos, of "day_of now - days" d]
  by (simp add: day_of_def)

lemma to_end_of_day: "(d \<le> setHours_23_59_59_999 now) = (day_of d \<le> day_of now)"
proof -
  have "setHours_23_59_59_999 now = (day_of now + 1) * DAY_MS - 1"
    unfolding setHours_23_59_59_999_def day_of_def
    by (simp add: minus_mod_eq_div_mult algebra_simps)
  then have "(d \<le> setHours_23_59_59_999 now) = (\<not> (day_of now + 1) * DAY_MS \<le> d)"
    by auto
  also have "\<dots> = (\<not> day_of now + 1 \<le> day_of d)"
    using mult_le_iff_le_div [OF DAY_MS_pos, of "day_of now + 1" d] by (simp add: day_of_def)
  finally show ?thesis by auto
qed

lemma populate_fields:
  "date (populate js b) = date b"
  "websiteVisits (populate js b) = websiteVisits b"
  "uniqueVisitors (populate js b) = uniqueVisitors b"
  "jobViews (populate js b) = populate_entries js (jobViews b)"
  "jobClicks (populate js b) = populate_entries js (jobClicks b)"
  by (simp_all add: populate_def)

lemma populate_entries_count: "map count (populate_entries js es) = map count es"
  by (simp add: populate_entries_def o_def)

lemma populate_entries_jobId:
  "map jobId (populate_entries js es) =
     map (\<lambda>e. map_option select_fields (findById js (jobId e))) es"
  by (simp add: populate_entries_def populate_ref_def o_def)

lemma sum_counts_populated:
  "sum_list (map count (populate_entries js es)) = sum_list (map count es)"
  by (simp add: populate_entries_count)

lemma dashboard_range:
  "getAnalyticsForDateRange js store
     (setHours_0_0_0_0 (setDate_back now days)) (setHours_23_59_59_999 now) =
   map (populate js)
     (filter (\<lambda>b. day_of now - days \<le> day_of (date b) \<and> day_of (date b) \<le> day_of now) store)"
  by (simp add: getAnalyticsForDateRange_def from_start_of_day to_end_of_day)

lemma dashboard_totals:
  fixes now days js store
  defines "W \<equiv> filter (\<lambda>b. day_of now - days \<le> day_of (date b) \<and> day_of (date b) \<le> day_of now) store"
  shows "totalVisits (getDashboardAnalytics now days js store) = sum_list (map websiteVisits W)"
    and "totalUniqueVisitors (getDashboardAnalytics now days js store) =
           sum_list (map (\<lambda>b. length (uniqueVisitors b)) W)"
    and "totalJobViews (getDashboardAnalytics now days js store) =
           sum_list (map (\<lambda>b. sum_list (map count (jobViews b))) W)"
    and "totalJobClicks (getDashboardAnalytics now days js store) =
           sum_list (map (\<lambda>b. sum_list (map count (jobClicks b))) W)"
    and "map date (dailyAnalytics (getDashboardAnalytics now days js store)) = map date W"
  unfolding W_def
  by (simp_all add: getDashboardAnalytics_def Let_def dashboard_range reduce_sum o_def
      populate_fields sum_counts_populated)

lemma day_of_numeral:
  "day_of (10 * DAY_MS + 5000) = 10" "day_of (10 * DAY_MS) = 10"
  "day_of (9 * DAY_MS) = 9" "day_of (8 * DAY_MS) = 8"
  by (simp_all add: day_of_def DAY_MS_def)

subsection \<open>The window of the dashboard\<close>

text \<open>
  What the dashboard aggregates, for every \<open>days\<close>: the buckets whose calendar day lies
  between the day \<open>days\<close> days before today and today, both included. The start of its
  range is the midnight that begins the day \<open>days\<close> days back, the end is the end of today.
\<close>

lemma dashboard_window:
  "let W = filter (\<lambda>b. day_of now - days \<le> day_of (date b) \<and> day_of (date b) \<le> day_of now)
             store;
       d = getDashboardAnalytics now days js store
   in totalVisits d = sum_list (map websiteVisits W)
    \<and> totalUniqueVisitors d = sum_list (map (\<lambda>b. length (uniqueVisitors b)) W)
    \<and> totalJobViews d = sum_list (map (\<lambda>b. sum_list (map count (jobViews b))) W)
    \<and> totalJobClicks d = sum_list (map (\<lambda>b. sum_list (map count (jobClicks b))) W)
    \<and> map date (dailyAnalytics d) = map date W"
  unfolding Let_def by (intro conjI dashboard_totals)

text \<open>
  C7 at a failing input: buckets of the days 8, 9 and 10 with 1, 4 and 16 visits, and
  \<open>Dashboard(1)\<close> five seconds after the midnight that begins day 10. The last one calendar
  day including today is day 10 alone, and the bucket of day 9 is outside it; yet the
  dashboard returns the buckets of the days 9 and 10 and counts 20 visits, one day more
  than the claim says. The routes of \<open>analyticsRoutes.js\<close>, asked for the same \<open>days = 1\<close>
  at the same time, select the bucket of day 10 alone.
\<close>

theorem dashboard_counts_bucket_days_back:
  "\<not> in_last_days_including_today (10 * DAY_MS + 5000) 1 (9 * DAY_MS)
   \<and> in_last_days_including_today (10 * DAY_MS + 5000) 1 (10 * DAY_MS)
   \<and> map date (dailyAnalytics (getDashboardAnalytics (10 * DAY_MS + 5000) 1 []
        [(newAnalytics (8 * DAY_MS)) \<lparr>websiteVisits := 1\<rparr>,
         (newAnalytics (9 * DAY_MS)) \<lparr>websiteVisits := 4\<rparr>,
         (newAnalytics (10 * DAY_MS)) \<lparr>websiteVisits := 16\<rparr>]))
     = [9 * DAY_MS, 10 * DAY_MS]
   \<and> totalVisits (getDashboardAnalytics (10 * DAY_MS + 5000) 1 []
        [(newAnalytics (8 * DAY_MS)) \<lparr>websiteVisits := 1\<rparr>,
         (newAnalytics (9 * DAY_MS)) \<lparr>websiteVisits := 4\<rparr>,
         (newAnalytics (10 * DAY_MS)) \<lparr>websiteVisits := 16\<rparr>]) = 20
   \<and> map date (routes_range_query (10 * DAY_MS + 5000) 1 []
        [(newAnalytics (8 * DAY_MS)) \<lparr>websiteVisits := 1\<rparr>,
         (newAnalytics (9 * DAY_MS)) \<lparr>websiteVisits := 4\<rparr>,
         (newAnalytics (10 * DAY_MS)) \<lparr>websiteVisits := 16\<rparr>])
     = [10 * DAY_MS]"
proof -
  have sibling: "map date (routes_range_query (10 * DAY_MS + 5000) 1 []
        [(newAnalytics (8 * DAY_MS)) \<lparr>websiteVisits := 1\<rparr>,
         (newAnalytics (9 * DAY_MS)) \<lparr>websiteVisits := 4\<rparr>,
         (newAnalytics (10 * DAY_MS)) \<lparr>websiteVisits := 16\<rparr>])
     = [10 * DAY_MS]"
    by (simp add: routes_range_query_def Let_def getAnalyticsForDateRange_def
        setDate_back_def populate_fields newAnalytics_def DAY_MS_def)
  have dashboard: "\<not> in_last_days_including_today (10 * DAY_MS + 5000) 1 (9 * DAY_MS)
   \<and> in_last_days_including_today (10 * DAY_MS + 5000) 1 (10 * DAY_MS)
   \<and> map date (dailyAnalytics (getDashboardAnalytics (10 * DAY_MS + 5000) 1 []
        [(newAnalytics (8 * DAY_MS)) \<lparr>websiteVisits := 1\<rparr>,
         (newAnalytics (9 * DAY_MS)) \<lparr>websiteVisits := 4\<rparr>,
         (newAnalytics (10 * DAY_MS)) \<lparr>websiteVisits := 16\<rparr>]))
     = [9 * DAY_MS, 10 * DAY_MS]
   \<and> totalVisits (getDashboardAnalytics (10 * DAY_MS + 5000) 1 []
        [(newAnalytics (8 * DAY_MS)) \<lparr>websiteVisits := 1\<rparr>,
         (newAnalytics (9 * DAY_MS)) \<lparr>websiteVisits := 4\<rparr>,
         (newAnalytics (10 * DAY_MS)) \<lparr>websiteVisits := 16\<rparr>]) = 20"
    by (simp add: in_last_days_including_today_def dashboard_totals day_of_numeral
        newAnalytics_def)
  from dashboard sibling show ?thesis
    by blast
qed

text \<open>
  So the dashboard and the other analytics routes disagree on the window of one day.
\<close>

theorem dashboard_counts_bucket_days_back_witness:
  "map date (dailyAnalytics (getDashboardAnalytics (10 * DAY_MS + 5000) 1 []
        [(newAnalytics (8 * DAY_MS)) \<lparr>websiteVisits := 1\<rparr>,
         (newAnalytics (9 * DAY_MS)) \<lparr>websiteVisits := 4\<rparr>,
         (newAnalytics (10 * DAY_MS)) \<lparr>websiteVisits := 16\<rparr>]))
   \<noteq> map date (routes_range_query (10 * DAY_MS + 5000) 1 []
        [(newAnalytics (8 * DAY_MS)) \<lparr>websiteVisits := 1\<rparr>,
         (newAnalytics (9 * DAY_MS)) \<lparr>websiteVisits := 4\<rparr>,
         (newAnalytics (10 * DAY_MS)) \<lparr>websiteVisits := 16\<rparr>])"
  using dashboard_counts_bucket_days_back by (simp add: DAY_MS_def)

subsection \<open>The range query\<close>

text \<open>
  C8, as stated, fails on the entries of jobs that no longer exist: they are not dropped.
  With no job in the store, the entry of job 7 comes back with its count 3 and with the
  reference \<open>null\<close>.
\<close>

theorem range_query_keeps_entries_of_missing_jobs:
  "findById [] 7 = None
   \<and> map (\<lambda>r. map count (jobViews r))
       (getAnalyticsForDateRange []
          [(newAnalytics 0) \<lparr>jobViews := [\<lparr>jobId = 7, count = 3\<rparr>]\<rparr>] 0 0)
     = [[3]]
   \<and> map (\<lambda>r. map jobId (jobViews r))
       (getAnalyticsForDateRange []
          [(newAnalytics 0) \<lparr>jobViews := [\<lparr>jobId = 7, count = 3\<rparr>]\<rparr>] 0 0)
     = [[None]]"
  by (simp add: getAnalyticsForDateRange_def populate_def populate_entries_def populate_ref_def
      findById_def newAnalytics_def)

text \<open>
  C8, amended: \<open>RangeQuery(startDate, endDate)\<close> returns, in stored order, exactly the
  stored buckets whose date lies in \<open>[startDate, endDate]\<close>, both ends included. Every
  per-job entry of a returned bucket is kept with its count; its job reference is the
  selected fields of the job when the job exists and \<open>null\<close> when it no longer exists. The
  query writes nothing: it returns the result only.
\<close>

theorem range_query_returns_buckets_in_range_with_resolved_entries:
  "let W = filter (\<lambda>b. startDate \<le> date b \<and> date b \<le> endDate) store;
       R = getAnalyticsForDateRange js store startDate endDate
   in map date R = map date W
    \<and> map (\<lambda>r. map count (jobViews r)) R = map (\<lambda>b. map count (jobViews b)) W
    \<and> map (\<lambda>r. map count (jobClicks r)) R = map (\<lambda>b. map count (jobClicks b)) W
    \<and> map (\<lambda>r. map jobId (jobViews r)) R =
        map (\<lambda>b. map (\<lambda>e. map_option select_fields (findById js (jobId e))) (jobViews b)) W
    \<and> map (\<lambda>r. map jobId (jobClicks r)) R =
        map (\<lambda>b. map (\<lambda>e. map_option select_fields (findById js (jobId e))) (jobClicks b)) W"
  by (simp add: Let_def getAnalyticsForDateRange_def o_def populate_fields
      populate_entries_count populate_entries_jobId)

text \<open>
  A bucket dated 50 with views of job 7, which exists, and of job 8, which does not; the
  range \<open>[0, 100]\<close> returns it and not the bucket dated 200.
\<close>

theorem range_query_returns_buckets_in_range_with_resolved_entries_witness:
  "map date (getAnalyticsForDateRange [newJob 7 ''Acme'' ''https://acme.example/apply'' 9 0]
      [(newAnalytics 50) \<lparr>jobViews := [\<lparr>jobId = 7, count = 3\<rparr>, \<lparr>jobId = 8, count = 2\<rparr>]\<rparr>,
       newAnalytics 200] 0 100) = [50]
   \<and> map (\<lambda>r. map count (jobViews r))
      (getAnalyticsForDateRange [newJob 7 ''Acme'' ''https://acme.example/apply'' 9 0]
      [(newAnalytics 50) \<lparr>jobViews := [\<lparr>jobId = 7, count = 3\<rparr>, \<lparr>jobId = 8, count = 2\<rparr>]\<rparr>,
       newAnalytics 200] 0 100) = [[3, 2]]
   \<and> map (\<lambda>r. map jobId (jobViews r))
      (getAnalyticsForDateRange [newJob 7 ''Acme'' ''https://acme.example/apply'' 9 0]
      [(newAnalytics 50) \<lparr>jobViews := [\<lparr>jobId = 7, count = 3\<rparr>, \<lparr>jobId = 8, count = 2\<rparr>]\<rparr>,
       newAnalytics 200] 0 100)
     = [[Some (select_fields (newJob 7 ''Acme'' ''https://acme.example/apply'' 9 0)), None]]"
  using range_query_returns_buckets_in_range_with_resolved_entries
    [where startDate = 0 and endDate = 100
       and js = "[newJob 7 ''Acme'' ''https://acme.example/apply'' 9 0]"
       and store = "[(newAnalytics 50)
           \<lparr>jobViews := [\<lparr>jobId = 7, count = 3\<rparr>, \<lparr>jobId = 8, count = 2\<rparr>]\<rparr>,
         newAnalytics 200]"]
  by (simp add: Let_def newAnalytics_def findById_def newJob_def)

section \<open>The public routes: properties\<close>

text \<open>
  A storage failure inside \<open>recordWebsiteVisit\<close> never reaches the route behind the
  middleware: with the analytics storage down, the route runs on the unchanged state.
\<close>

lemma trackAnalytics_swallows_failure:
  "\<not> analytics_up d \<Longrightarrow> trackAnalytics now req next d = next d"
  by (simp add: trackAnalytics_def await_Analytics_def)

lemma trackAnalytics_records_visit:
  "analytics_up d \<Longrightarrow>
   trackAnalytics now req next d = next (d\<lparr>buckets := recordWebsiteVisit now req (buckets d)\<rparr>)"
  by (simp add: trackAnalytics_def await_Analytics_def)

text \<open>
  C3 at a failing input. The store holds one active job; the analytics storage rejects
  every call. \<open>GET /api/jobs/1\<close> survives the failure of \<open>recordWebsiteVisit\<close> in the
  middleware, but the failure of \<open>recordJobView\<close> inside the handler is caught by the
  handler's own \<open>catch\<close>, which answers 500 instead of the job, after the job's view
  counter has been raised. \<open>POST /api/jobs/1/click\<close> answers 500 instead of the hiring
  link in the same way. With the storage up, both answer 200.
\<close>

theorem analytics_failure_fails_job_view_and_click:
  "fst (GET_job 1000 \<lparr> req_ip = Some ''10.0.0.1'', remoteAddress = None,
                        header_User_Agent = Some ''Mozilla/5.0'' \<rparr> 1
          \<lparr> jobs = [newJob 1 ''Acme'' ''https://acme.example/apply'' 9 0], buckets = [],
            analytics_up = False \<rparr>)
     = (500, Message ''Error fetching job'')
   \<and> map (\<lambda>j. views (analytics j))
        (jobs (snd (GET_job 1000 \<lparr> req_ip = Some ''10.0.0.1'', remoteAddress = None,
                        header_User_Agent = Some ''Mozilla/5.0'' \<rparr> 1
          \<lparr> jobs = [newJob 1 ''Acme'' ''https://acme.example/apply'' 9 0], buckets = [],
            analytics_up = False \<rparr>))) = [1]
   \<and> fst (POST_click 1000 1
          \<lparr> jobs = [newJob 1 ''Acme'' ''https://acme.example/apply'' 9 0], buckets = [],
            analytics_up = False \<rparr>)
     = (500, Message ''Error recording click'')
   \<and> fst (GET_job 1000 \<lparr> req_ip = Some ''10.0.0.1'', remoteAddress = None,
                        header_User_Agent = Some ''Mozilla/5.0'' \<rparr> 1
          \<lparr> jobs = [newJob 1 ''Acme'' ''https://acme.example/apply'' 9 0], buckets = [],
            analytics_up = True \<rparr>)
     = (200, JobDoc (incrementViews 1000 (newJob 1 ''Acme'' ''https://acme.example/apply'' 9 0)))
   \<and> fst (POST_click 1000 1
          \<lparr> jobs = [newJob 1 ''Acme'' ''https://acme.example/apply'' 9 0], buckets = [],
            analytics_up = True \<rparr>)
     = (200, ClickRecorded ''Click recorded'' ''https://acme.example/apply'')"
  by (simp add: GET_job_def POST_click_def trackAnalytics_def get_job_handler_def
      await_Analytics_def findById_def save_def Let_def incrementViews_def incrementClicks_def
      newJob_def)

text \<open>
  So the answer of \<open>GET /api/jobs/1\<close> depends on whether the analytics write succeeds.
\<close>

theorem analytics_failure_fails_job_view_and_click_witness:
  "fst (GET_job 1000 \<lparr> req_ip = Some ''10.0.0.1'', remoteAddress = None,
                        header_User_Agent = Some ''Mozilla/5.0'' \<rparr> 1
          \<lparr> jobs = [newJob 1 ''Acme'' ''https://acme.example/apply'' 9 0], buckets = [],
            analytics_up = False \<rparr>)
   \<noteq> fst (GET_job 1000 \<lparr> req_ip = Some ''10.0.0.1'', remoteAddress = None,
                        header_User_Agent = Some ''Mozilla/5.0'' \<rparr> 1
          \<lparr> jobs = [newJob 1 ''Acme'' ''https://acme.example/apply'' 9 0], buckets = [],
            analytics_up = True \<rparr>)"
  using analytics_failure_fails_job_view_and_click by simp

section \<open>The conversion rate\<close>

subsection \<open>The error of one rounding\<close>

lemma scale_up_ge: "0 < x \<Longrightarrow> 2 ^ 52 \<le> scale_up x"
proof (induction x rule: scale_up.induct)
  case (1 y)
  show ?case
  proof (cases "y < 2 ^ 52")
    case True
    with 1 have "2 ^ 52 \<le> scale_up (2 * y)" by simp
    with True 1 show ?thesis by (simp add: scale_up.simps [of y])
  next
    case False
    then show ?thesis by (simp add: scale_up.simps [of y])
  qed
qed

lemma scale_down_ge: "2 ^ 52 \<le> y \<Longrightarrow> 2 ^ 52 \<le> scale_down y"
proof (induction y rule: scale_down.induct)
  case (1 y)
  show ?case
  proof (cases "2 ^ 53 \<le> y")
    case True
    then have "2 ^ 52 \<le> y / 2" by simp
    with 1 True have "2 ^ 52 \<le> scale_down (y / 2)" by simp
    with True show ?thesis by (simp add: scale_down.simps [of y])
  next
    case False
    with 1 show ?thesis by (simp add: scale_down.simps [of y])
  qed
qed

lemma round_ties_even_near: "\<bar>of_int (round_ties_even y) - y\<bar> \<le> 1 / 2"
proof -
  define f where "f = \<lfloor>y\<rfloor>"
  define r where "r = y - of_int f"
  have r: "0 \<le> r" "r < 1"
    unfolding r_def f_def by linarith+
  have y: "y = of_int f + r"
    by (simp add: r_def)
  have "round_ties_even y =
      (if r < 1 / 2 then f else if 1 / 2 < r then f + 1 else if even f then f else f + 1)"
    by (simp add: round_ties_even_def Let_def f_def r_def)
  then show ?thesis
    using r unfolding y by (auto simp: abs_le_iff)
qed

lemma fl_pos_error:
  assumes "0 < x"
  shows "\<bar>fl_pos x - x\<bar> \<le> x / 2 ^ 53"
proof -
  define y where "y = scale_down (scale_up x)"
  define m :: rat where "m = of_int (round_ties_even y)"
  have y: "2 ^ 52 \<le> y"
    unfolding y_def by (intro scale_down_ge scale_up_ge assms)
  then have ypos: "0 < y"
    by (rule less_le_trans [rotated]) simp
  have m: "\<bar>m - y\<bar> \<le> 1 / 2"
    unfolding m_def by (rule round_ties_even_near)
  have eq: "fl_pos x - x = (m - y) * (x / y)"
    using ypos by (simp add: fl_pos_def Let_def y_def [symmetric] m_def [symmetric] field_simps)
  have xy: "x / y \<le> x / 2 ^ 52"
    using assms y by (intro divide_left_mono) simp_all
  have xy0: "0 \<le> x / y"
    using assms ypos by simp
  have "\<bar>fl_pos x - x\<bar> = \<bar>m - y\<bar> * (x / y)"
    unfolding eq by (simp only: abs_mult abs_of_nonneg [OF xy0])
  also have "\<dots> \<le> (1 / 2) * (x / 2 ^ 52)"
    using m xy xy0 by (intro mult_mono) simp_all
  also have "\<dots> = x / 2 ^ 53"
    by simp
  finally show ?thesis .
qed

lemma fl_error:
  assumes "0 \<le> x"
  shows "\<bar>fl x - x\<bar> \<le> x / 2 ^ 53"
proof (cases "x = 0")
  case True
  then show ?thesis by (simp add: fl_def)
next
  case False
  with assms have "0 < x" by simp
  then show ?thesis using fl_pos_error [of x] by (simp add: fl_def)
qed

lemma fl_nonneg:
  assumes "0 \<le> x"
  shows "0 \<le> fl x"
proof -
  have "x / 2 ^ 53 \<le> x"
    using assms by (simp add: field_simps)
  with fl_error [OF assms] have "\<bar>fl x - x\<bar> \<le> x"
    by (rule order_trans)
  then show ?thesis by linarith
qed


subsection \<open>The error of the quotient and the product\<close>

lemma two_roundings:
  assumes x: "0 \<le> x"
  shows "\<bar>100 * fl (fl x * 100) - 10000 * x\<bar> \<le> 30000 * x / 2 ^ 53"
    and "0 \<le> fl (fl x * 100)"
proof -
  define u :: rat where "u = 1 / 2 ^ 53"
  define q1 where "q1 = fl x"
  define q where "q = fl (q1 * 100)"
  have u: "0 \<le> u" "u \<le> 1"
    by (simp_all add: u_def)
  have q1: "0 \<le> q1"
    unfolding q1_def by (rule fl_nonneg [OF x])
  have e1: "\<bar>q1 - x\<bar> \<le> x * u"
    using fl_error [OF x] by (simp add: q1_def u_def)
  have q1x: "q1 \<le> 2 * x"
  proof -
    have "x * u \<le> x * 1"
      using x u by (intro mult_left_mono) simp_all
    with e1 show ?thesis by linarith
  qed
  have "0 \<le> q1 * 100"
    using q1 by simp
  from fl_error [OF this] fl_nonneg [OF this]
  have e2: "\<bar>q - q1 * 100\<bar> \<le> q1 * 100 * u" and q: "0 \<le> q"
    by (simp_all add: q_def u_def)
  have "q1 * u \<le> (2 * x) * u"
    using q1x u by (intro mult_right_mono) simp_all
  then have "q1 * 100 * u \<le> 200 * (x * u)"
    by (simp add: mult.commute mult.left_commute)
  with e2 have e2': "\<bar>q - q1 * 100\<bar> \<le> 200 * (x * u)"
    by (rule order_trans)
  have "100 * q - 10000 * x = 100 * (q - q1 * 100) + 10000 * (q1 - x)"
    by simp
  then have "\<bar>100 * q - 10000 * x\<bar> \<le> \<bar>100 * (q - q1 * 100)\<bar> + \<bar>10000 * (q1 - x)\<bar>"
    by (simp only: abs_triangle_ineq)
  also have "\<dots> = 100 * \<bar>q - q1 * 100\<bar> + 10000 * \<bar>q1 - x\<bar>"
    unfolding abs_mult by simp
  also have "\<dots> \<le> 100 * (200 * (x * u)) + 10000 * (x * u)"
    using e1 e2' by (intro add_mono mult_left_mono) simp_all
  also have "\<dots> = 30000 * x / 2 ^ 53"
    by (simp add: u_def)
  finally show "\<bar>100 * fl (fl x * 100) - 10000 * x\<bar> \<le> 30000 * x / 2 ^ 53"
    by (simp add: q_def q1_def)
  show "0 \<le> fl (fl x * 100)"
    using q by (simp add: q_def q1_def)
qed

lemma halve_bound:
  fixes a V :: rat
  assumes "0 < V" and "a * (2 * V) \<le> V"
  shows "a \<le> 1 / 2"
proof -
  have "a * (2 * V) \<le> (1 / 2) * (2 * V)"
    using assms(2) by simp
  then show ?thesis
    using assms(1) by (simp only: mult_le_cancel_right)
qed

lemma int_gap:
  fixes n :: int and c v :: nat
  assumes "of_int n * (2 * of_nat v) - 20000 * of_nat c < 1 + (of_nat v :: rat)"
  shows "of_int n * (2 * of_nat v) - 20000 * of_nat c \<le> (of_nat v :: rat)"
proof -
  have "(of_int (n * (2 * int v) - 20000 * int c) :: rat) < of_int (1 + int v)"
    using assms by simp
  then have "n * (2 * int v) - 20000 * int c < 1 + int v"
    by (simp only: of_int_less_iff)
  then have "n * (2 * int v) - 20000 * int c \<le> int v"
    by simp
  then have "(of_int (n * (2 * int v) - 20000 * int c) :: rat) \<le> of_int (int v)"
    by (simp only: of_int_le_iff)
  then show ?thesis
    by simp
qed

lemma int_gap_rev:
  fixes n :: int and c v :: nat
  assumes "20000 * of_nat c - of_int n * (2 * of_nat v) < 1 + (of_nat v :: rat)"
  shows "20000 * of_nat c - of_int n * (2 * of_nat v) \<le> (of_nat v :: rat)"
proof -
  have "(of_int (20000 * int c - n * (2 * int v)) :: rat) < of_int (1 + int v)"
    using assms by simp
  then have "20000 * int c - n * (2 * int v) < 1 + int v"
    by (simp only: of_int_less_iff)
  then have "20000 * int c - n * (2 * int v) \<le> int v"
    by simp
  then have "(of_int (20000 * int c - n * (2 * int v)) :: rat) \<le> of_int (int v)"
    by (simp only: of_int_le_iff)
  then show ?thesis
    by simp
qed


lemma toFixed_near:
  fixes c v :: nat
  assumes v: "0 < v" and c: "c \<le> 10 ^ 11"
  shows "\<bar>(of_nat (toFixed_n (fl (fl (of_nat c / of_nat v) * 100))) :: rat)
           - 10000 * of_nat c / of_nat v\<bar> \<le> 1 / 2"
proof -
  define V :: rat where "V = of_nat v"
  define C :: rat where "C = of_nat c"
  define z :: rat where "z = 100 * fl (fl (C / V) * 100)"
  define n :: int where "n = \<lfloor>z + 1 / 2\<rfloor>"
  define R :: rat where "R = 10000 * (C / V)"
  define E :: rat where "E = \<bar>z - R\<bar>"
  have V: "0 < V"
    using v by (simp add: V_def)
  have C0: "0 \<le> C"
    by (simp add: C_def)
  have C: "C \<le> 10 ^ 11"
  proof -
    have "(of_nat c :: rat) \<le> of_nat (10 ^ 11)"
      using c by (simp only: of_nat_le_iff)
    then show ?thesis by (simp add: C_def)
  qed
  have x: "0 \<le> C / V"
    using V C0 by simp
  have z0: "0 \<le> z"
    unfolding z_def using two_roundings(2) [OF x] by simp
  have err: "E \<le> 30000 * (C / V) / 2 ^ 53"
    unfolding E_def R_def z_def by (rule two_roundings(1) [OF x])
  have small: "30000 * (C / V) / 2 ^ 53 * (2 * V) < 1"
  proof -
    have "30000 * (C / V) / 2 ^ 53 * (2 * V) = 60000 * C / 2 ^ 53"
      using V by simp
    also have "\<dots> \<le> 60000 * 10 ^ 11 / 2 ^ 53"
      using C by (intro divide_right_mono mult_left_mono) simp_all
    also have "\<dots> < 1"
      by simp
    finally show ?thesis .
  qed
  have close: "E * (2 * V) < 1"
  proof -
    have "E * (2 * V) \<le> 30000 * (C / V) / 2 ^ 53 * (2 * V)"
      using err V by (intro mult_right_mono) simp_all
    from this small show ?thesis by (rule le_less_trans)
  qed
  have VR: "R * (2 * V) = 20000 * C"
    using V by (simp add: R_def)
  have n_le: "of_int n \<le> z + 1 / 2" and n_gt: "z + 1 / 2 < of_int n + 1"
    unfolding n_def by linarith+
  have n0: "0 \<le> n"
    unfolding n_def using z0 by simp
  have nat_n: "(of_nat (toFixed_n (fl (fl (of_nat c / of_nat v) * 100))) :: rat) = of_int n"
  proof -
    have "fl (fl (of_nat c / of_nat v) * 100) * 100 = z"
      by (simp add: z_def C_def V_def)
    then have "toFixed_n (fl (fl (of_nat c / of_nat v) * 100)) = nat n"
      by (simp only: toFixed_n_def n_def)
    with n0 show ?thesis by simp
  qed
  have zE: "z - R \<le> E" "R - z \<le> E"
    unfolding E_def by linarith+
  have EV: "(E + 1 / 2) * (2 * V) = E * (2 * V) + V"
    by (simp add: algebra_simps)
  have up: "(of_int n - R) * (2 * V) \<le> V"
  proof -
    have "of_int n - R \<le> E + 1 / 2"
      using n_le zE(1) by linarith
    then have "(of_int n - R) * (2 * V) \<le> (E + 1 / 2) * (2 * V)"
      using V by (intro mult_right_mono) simp_all
    also have "\<dots> < 1 + V"
      unfolding EV using close by simp
    finally have "of_int n * (2 * V) - 20000 * C < 1 + V"
      by (simp only: left_diff_distrib VR)
    then have "of_int n * (2 * V) - 20000 * C \<le> V"
      unfolding V_def C_def by (rule int_gap)
    then show ?thesis
      by (simp only: left_diff_distrib VR)
  qed
  have low: "(R - of_int n) * (2 * V) \<le> V"
  proof -
    have "R - of_int n < E + 1 / 2"
      using n_gt zE(2) by linarith
    then have "(R - of_int n) * (2 * V) < (E + 1 / 2) * (2 * V)"
      using V by (intro mult_strict_right_mono) simp_all
    also have "\<dots> < 1 + V"
      unfolding EV using close by simp
    finally have "20000 * C - of_int n * (2 * V) < 1 + V"
      by (simp only: left_diff_distrib VR)
    then have "20000 * C - of_int n * (2 * V) \<le> V"
      unfolding V_def C_def by (rule int_gap_rev)
    then show ?thesis
      by (simp only: left_diff_distrib VR)
  qed
  have "of_int n - R \<le> 1 / 2" "R - of_int n \<le> 1 / 2"
    using halve_bound [OF V up] halve_bound [OF V low] by simp_all
  then have "\<bar>of_int n - R\<bar> \<le> 1 / 2"
    by linarith
  then show ?thesis
    unfolding nat_n by (simp add: R_def C_def V_def)
qed

subsection \<open>Evaluating the model\<close>

lemma scale_up_eval:
  "0 < x \<Longrightarrow> 2 ^ 52 \<le> x * 2 ^ k \<Longrightarrow> x * 2 ^ k < 2 ^ 53 \<Longrightarrow> scale_up x = x * 2 ^ k"
proof (induction k arbitrary: x)
  case 0
  then show ?case by (simp add: scale_up.simps [of x])
next
  case (Suc k)
  have "x * 1 \<le> x * 2 ^ k"
    using Suc.prems(1) by (intro mult_left_mono) simp_all
  moreover have "x * 2 ^ k < 2 ^ 52"
    using Suc.prems(3) by simp
  ultimately have "x < 2 ^ 52" by simp
  with Suc.prems(1) have "scale_up x = scale_up (2 * x)"
    by (simp add: scale_up.simps [of x])
  also have "\<dots> = (2 * x) * 2 ^ k"
    using Suc.prems by (intro Suc.IH) simp_all
  finally show ?case by simp
qed

lemma scale_down_id: "y < 2 ^ 53 \<Longrightarrow> scale_down y = y"
  by (simp add: scale_down.simps [of y])

lemma fl_pos_eval:
  assumes "0 < x" and "2 ^ 52 \<le> x * 2 ^ k" and "x * 2 ^ k < 2 ^ 53"
  shows "fl_pos x = of_int (round_ties_even (x * 2 ^ k)) / 2 ^ k"
proof -
  have "scale_down (scale_up x) = x * 2 ^ k"
    using assms by (simp add: scale_up_eval [of x k] scale_down_id)
  then show ?thesis
    using assms(1) by (simp add: fl_pos_def Let_def)
qed

lemma round_ties_even_down:
  "of_int f \<le> y \<Longrightarrow> y < of_int f + 1 / 2 \<Longrightarrow> round_ties_even y = f"
proof -
  assume a: "of_int f \<le> y" "y < of_int f + 1 / 2"
  then have "\<lfloor>y\<rfloor> = f"
    by (intro floor_unique) simp_all
  with a show ?thesis
    by (simp add: round_ties_even_def Let_def)
qed

lemma toFixed_n_eval:
  "of_nat n \<le> x * 100 + 1 / 2 \<Longrightarrow> x * 100 + 1 / 2 < of_nat n + 1 \<Longrightarrow> toFixed_n x = n"
proof -
  assume "of_nat n \<le> x * 100 + 1 / 2" "x * 100 + 1 / 2 < of_nat n + 1"
  then have "\<lfloor>x * 100 + 1 / 2\<rfloor> = int n"
    by (intro floor_unique) simp_all
  then show ?thesis
    by (simp add: toFixed_n_def)
qed

lemma fl_203: "fl (203 / 20000) = 5851076635879748 / 2 ^ 59"
proof -
  have "fl_pos (203 / 20000) = of_int (round_ties_even (203 / 20000 * 2 ^ 59)) / 2 ^ 59"
    by (rule fl_pos_eval) simp_all
  moreover have "round_ties_even (203 / 20000 * 2 ^ 59) = 5851076635879748"
    by (rule round_ties_even_down) simp_all
  ultimately show ?thesis by (simp add: fl_def)
qed

lemma fl_203_100: "fl (5851076635879748 / 2 ^ 59 * 100) = 4571153621781053 / 2 ^ 52"
proof -
  have "fl_pos (5851076635879748 / 2 ^ 59 * 100) =
      of_int (round_ties_even (5851076635879748 / 2 ^ 59 * 100 * 2 ^ 52)) / 2 ^ 52"
    by (rule fl_pos_eval) simp_all
  moreover have "round_ties_even (5851076635879748 / 2 ^ 59 * 100 * 2 ^ 52) = 4571153621781053"
    by (rule round_ties_even_down) simp_all
  ultimately show ?thesis by (simp add: fl_def)
qed

lemma decimal_101: "decimal 101 = ''101''" "decimal 102 = ''102''"
  by (simp_all add: decimal.simps [of 101] decimal.simps [of 102] decimal.simps [of 10]
      decimal.simps [of "Suc 0"] digit_def)

lemma hundredths_101: "hundredths 101 = ''1.01''" "hundredths 102 = ''1.02''"
  by (simp_all add: hundredths_def Let_def decimal_101)

lemma toFixed_203: "toFixed_2 (fl (fl (203 / 20000) * 100)) = ''1.01''"
proof -
  have "toFixed_n (4571153621781053 / 2 ^ 52) = 101"
    by (rule toFixed_n_eval) simp_all
  then show ?thesis
    unfolding fl_203 fl_203_100 by (simp add: toFixed_2_def hundredths_101)
qed

lemma toFixed_exact: "toFixed_2 (100 * 203 / 20000) = ''1.02''"
proof -
  have "toFixed_n (100 * 203 / 20000) = 102"
    by (rule toFixed_n_eval) simp_all
  then show ?thesis
    by (simp add: toFixed_2_def hundredths_101)
qed

subsection \<open>The rate of the dashboard\<close>

lemma dashboard_conversionRate:
  "conversionRate (getDashboardAnalytics now days js store) =
     (if 0 < totalJobViews (getDashboardAnalytics now days js store)
      then Str (toFixed_2 (fl (fl (of_nat (totalJobClicks (getDashboardAnalytics now days js store))
                                  / of_nat (totalJobViews (getDashboardAnalytics now days js store)))
                               * 100)))
      else Num 0)"
  by (simp add: getDashboardAnalytics_def Let_def)

text \<open>
  C9, as stated, fails where the exact rate lies halfway between two hundredths. With 203
  clicks on 20000 views the exact rate is 1.015, which rounds to 1.02; the binary64
  product \<open>203 / 20000 * 100\<close> lies just below 1.015, and \<open>toFixed(2)\<close> of it is \<open>"1.01"\<close>.
\<close>

theorem conversion_rate_of_203_clicks_in_20000_views:
  "totalJobClicks (getDashboardAnalytics (10 * DAY_MS + 5000) 7 []
      [(newAnalytics (10 * DAY_MS))
         \<lparr>jobViews := [\<lparr>jobId = 1, count = 20000\<rparr>],
          jobClicks := [\<lparr>jobId = 1, count = 203\<rparr>]\<rparr>]) = 203
   \<and> totalJobViews (getDashboardAnalytics (10 * DAY_MS + 5000) 7 []
      [(newAnalytics (10 * DAY_MS))
         \<lparr>jobViews := [\<lparr>jobId = 1, count = 20000\<rparr>],
          jobClicks := [\<lparr>jobId = 1, count = 203\<rparr>]\<rparr>]) = 20000
   \<and> conversionRate (getDashboardAnalytics (10 * DAY_MS + 5000) 7 []
      [(newAnalytics (10 * DAY_MS))
         \<lparr>jobViews := [\<lparr>jobId = 1, count = 20000\<rparr>],
          jobClicks := [\<lparr>jobId = 1, count = 203\<rparr>]\<rparr>]) = Str ''1.01''
   \<and> spec_conversionRate 203 20000 = Str ''1.02''"
proof -
  let ?d = "getDashboardAnalytics (10 * DAY_MS + 5000) 7 []
      [(newAnalytics (10 * DAY_MS))
         \<lparr>jobViews := [\<lparr>jobId = 1, count = 20000\<rparr>],
          jobClicks := [\<lparr>jobId = 1, count = 203\<rparr>]\<rparr>]"
  have c: "totalJobClicks ?d = 203" and v: "totalJobViews ?d = 20000"
    by (simp_all add: dashboard_totals day_of_numeral newAnalytics_def)
  have r: "conversionRate ?d = Str ''1.01''"
    unfolding dashboard_conversionRate c v by (simp add: toFixed_203)
  have s: "spec_conversionRate 203 20000 = Str ''1.02''"
    using toFixed_exact by (simp add: spec_conversionRate_def)
  from c v r s show ?thesis by simp
qed

text \<open>
  C9, amended: \<open>Dashboard(days).conversionRate\<close> is the number 0 when \<open>totalJobViews = 0\<close>.
  Otherwise it is the string \<open>(totalJobClicks / totalJobViews * 100).toFixed(2)\<close>, computed
  in binary64; for totals that are exact numbers, with at most \<open>10^11\<close> clicks, this is the
  two-decimal numeral of some \<open>n / 100\<close> that lies within \<open>0.005\<close> of the exact
  \<open>100 * totalJobClicks / totalJobViews\<close>: a nearest hundredth, where an exact tie may go
  either way.
\<close>

theorem conversion_rate_zero_or_nearest_hundredth:
  "let d = getDashboardAnalytics now days js store;
       c = totalJobClicks d;
       v = totalJobViews d
   in (v = 0 \<longrightarrow> conversionRate d = Num 0)
    \<and> (0 < v \<and> v < 2 ^ 53 \<and> c \<le> 10 ^ 11 \<longrightarrow>
         (\<exists>n. conversionRate d = Str (hundredths n)
            \<and> \<bar>of_nat n / 100 - 100 * of_nat c / of_nat v\<bar> \<le> (1 / 200 :: rat)))"
proof -
  define d where "d = getDashboardAnalytics now days js store"
  define c where "c = totalJobClicks d"
  define v where "v = totalJobViews d"
  have rate: "conversionRate d =
      (if 0 < v then Str (toFixed_2 (fl (fl (of_nat c / of_nat v) * 100))) else Num 0)"
    unfolding d_def c_def v_def by (rule dashboard_conversionRate)
  have zero: "v = 0 \<longrightarrow> conversionRate d = Num 0"
    by (simp add: rate)
  have near: "0 < v \<and> v < 2 ^ 53 \<and> c \<le> 10 ^ 11 \<longrightarrow>
         (\<exists>n. conversionRate d = Str (hundredths n)
            \<and> \<bar>of_nat n / 100 - 100 * of_nat c / of_nat v\<bar> \<le> (1 / 200 :: rat))"
  proof (intro impI, elim conjE)
    assume v: "0 < v" and c: "c \<le> 10 ^ 11"
    define n where "n = toFixed_n (fl (fl (of_nat c / of_nat v) * 100))"
    have "\<bar>(of_nat n :: rat) - 10000 * of_nat c / of_nat v\<bar> \<le> 1 / 2"
      unfolding n_def by (rule toFixed_near [OF v c])
    then have "\<bar>(of_nat n :: rat) - 10000 * of_nat c / of_nat v\<bar> / 100 \<le> (1 / 2) / 100"
      by (rule divide_right_mono) simp
    moreover have "\<bar>(of_nat n :: rat) - 10000 * of_nat c / of_nat v\<bar> / 100 =
        \<bar>of_nat n / 100 - 100 * of_nat c / of_nat v\<bar>"
    proof -
      have "\<bar>(of_nat n :: rat) - 10000 * of_nat c / of_nat v\<bar> / 100 =
          \<bar>((of_nat n :: rat) - 10000 * of_nat c / of_nat v) / 100\<bar>"
        by simp
      also have "((of_nat n :: rat) - 10000 * of_nat c / of_nat v) / 100 =
          of_nat n / 100 - 100 * of_nat c / of_nat v"
        by (simp add: diff_divide_distrib)
      finally show ?thesis .
    qed
    ultimately have "\<bar>of_nat n / 100 - 100 * of_nat c / of_nat v\<bar> \<le> (1 / 200 :: rat)"
      by simp
    moreover have "conversionRate d = Str (hundredths n)"
      using v by (simp add: rate toFixed_2_def n_def)
    ultimately show "\<exists>n. conversionRate d = Str (hundredths n)
            \<and> \<bar>of_nat n / 100 - 100 * of_nat c / of_nat v\<bar> \<le> (1 / 200 :: rat)"
      by blast
  qed
  from zero near show ?thesis
    unfolding Let_def d_def [symmetric] c_def [symmetric] v_def [symmetric] by (rule conjI)
qed

text \<open>
  No bucket in the window: the rate is the number 0. One click on three views: the rate is
  the numeral of a hundredth within 0.005 of 33.333...
\<close>

theorem conversion_rate_zero_or_nearest_hundredth_witness:
  "conversionRate (getDashboardAnalytics (10 * DAY_MS + 5000) 7 [] []) = Num 0
   \<and> (\<exists>n. conversionRate (getDashboardAnalytics (10 * DAY_MS + 5000) 7 []
            [(newAnalytics (10 * DAY_MS))
               \<lparr>jobViews := [\<lparr>jobId = 1, count = 3\<rparr>],
                jobClicks := [\<lparr>jobId = 1, count = 1\<rparr>]\<rparr>]) = Str (hundredths n)
          \<and> \<bar>of_nat n / 100 - 100 * 1 / 3\<bar> \<le> (1 / 200 :: rat))"
proof (rule conjI)
  have "totalJobViews (getDashboardAnalytics (10 * DAY_MS + 5000) 7 [] []) = 0"
    by (simp add: dashboard_totals)
  with conversion_rate_zero_or_nearest_hundredth [of "10 * DAY_MS + 5000" 7 "[]" "[]"]
  show "conversionRate (getDashboardAnalytics (10 * DAY_MS + 5000) 7 [] []) = Num 0"
    by (simp add: Let_def)
next
  let ?d = "getDashboardAnalytics (10 * DAY_MS + 5000) 7 []
            [(newAnalytics (10 * DAY_MS))
               \<lparr>jobViews := [\<lparr>jobId = 1, count = 3\<rparr>],
                jobClicks := [\<lparr>jobId = 1, count = 1\<rparr>]\<rparr>]"
  have c: "totalJobClicks ?d = 1" and v: "totalJobViews ?d = 3"
    by (simp_all add: dashboard_totals day_of_numeral newAnalytics_def)
  from conversion_rate_zero_or_nearest_hundredth [of "10 * DAY_MS + 5000" 7 "[]"
      "[(newAnalytics (10 * DAY_MS))
               \<lparr>jobViews := [\<lparr>jobId = 1, count = 3\<rparr>],
                jobClicks := [\<lparr>jobId = 1, count = 1\<rparr>]\<rparr>]"]
  show "\<exists>n. conversionRate ?d = Str (hundredths n)
          \<and> \<bar>of_nat n / 100 - 100 * 1 / 3\<bar> \<le> (1 / 200 :: rat)"
    unfolding Let_def c v by simp
qed

end
